theory Spec2Isabelle
  imports Main "HOL-Library.Multiset"
begin

section \<open>Data model\<close>

text \<open>
  An instant (Go's \<^verbatim>\<open>time.Time\<close>) is its number of nanoseconds since the Unix epoch;
  \<^verbatim>\<open>a.Before(b)\<close> is \<open>a < b\<close>. A time field that was never set is written 0 (in Go it
  is the zero \<^verbatim>\<open>time.Time\<close>). A Go \<^verbatim>\<open>error\<close> is its message text: a function
  returning \<^verbatim>\<open>error\<close> returns a \<open>string option\<close> (\<open>None\<close> for \<^verbatim>\<open>nil\<close>), one
  returning \<^verbatim>\<open>(T, error)\<close> returns \<open>string + T\<close> (\<open>Inl\<close> the message).
\<close>

record ScheduledEmailData =
  ID :: string
  Account :: string
  DraftID :: string
  To :: "string list"
  CC :: "string list"
  BCC :: "string list"
  Subject :: string
  Body :: string
  IsHTML :: bool
  ScheduledAt :: int
  CreatedAt :: int
  Sent :: bool
  SentAt :: int
  Error :: string

text \<open>
  What is at the path of \<^verbatim>\<open>scheduled.json\<close>: no file, a file that cannot be read (with
  the operating system's message), a file that is not the JSON of a record list (with the
  decoder's message), or the JSON of a record list. Decoding what was encoded is taken to
  give the list back. The JSON form of a time has a four-digit year, so a file cannot
  hold a time whose year is outside 0..9999: \<open>Stored emails\<close> with such a time stands for
  no file the program can meet, and is read as malformed.
\<close>

datatype disk = NoFile | Unreadable string | Malformed string | Stored "ScheduledEmailData list"

text \<open>
  The process's surroundings: the home directory lookup, whether directories can be made
  (by path) and the file opened for writing (\<open>None\<close>: yes; \<open>Some t\<close>: the call fails with
  the message \<open>t\<close>, as for a read-only file, and the file is left as it was; a write that
  fails after the file was opened is not modelled), the file, the year \<^verbatim>\<open>Year()\<close> gives for
  a time value, the clock, and the mail service's log of the requests it was sent. \<^verbatim>\<open>time.Now()\<close> returns \<open>clock (tick)\<close> and moves \<open>tick\<close> on, so two
  readings of the clock are two arbitrary instants.
\<close>

record world =
  home :: "string + string"
  mkdir_err :: "string \<Rightarrow> string option"
  write_err :: "string option"
  disk :: disk
  time_Year :: "int \<Rightarrow> int"
  clock :: "nat \<Rightarrow> int"
  tick :: nat
  drafts :: "(string \<times> string) list"
  outbox :: "(string \<times> string) list"

definition time_Now :: "world \<Rightarrow> int \<times> world" where
  "time_Now w = (clock w (tick w), w\<lparr>tick := Suc (tick w)\<rparr>)"

section \<open>The configuration directory (package config)\<close>

definition GetConfigDir :: "world \<Rightarrow> string + string" where
  "GetConfigDir w =
     (case home w of
        Inl t \<Rightarrow> Inl (''failed to get home directory: '' @ t)
      | Inr homeDir \<Rightarrow> Inr (homeDir @ ''/.config/google-cli''))"

definition GetTokensDir :: "world \<Rightarrow> string + string" where
  "GetTokensDir w =
     (case GetConfigDir w of
        Inl t \<Rightarrow> Inl t
      | Inr configDir \<Rightarrow> Inr (configDir @ ''/tokens''))"

definition EnsureConfigDir :: "world \<Rightarrow> string option" where
  "EnsureConfigDir w =
     (case GetConfigDir w of
        Inl t \<Rightarrow> Some t
      | Inr configDir \<Rightarrow>
          (case GetTokensDir w of
             Inl t \<Rightarrow> Some t
           | Inr tokensDir \<Rightarrow>
               (case mkdir_err w configDir of
                  Some t \<Rightarrow> Some (''failed to create config directory: '' @ t)
                | None \<Rightarrow>
                    (case mkdir_err w tokensDir of
                       Some t \<Rightarrow> Some (''failed to create tokens directory: '' @ t)
                     | None \<Rightarrow> None))))"

section \<open>The scheduled-email store (package gmail)\<close>

definition getScheduledPath :: "world \<Rightarrow> string + string" where
  "getScheduledPath w =
     (case GetConfigDir w of
        Inl t \<Rightarrow> Inl t
      | Inr configDir \<Rightarrow> Inr (configDir @ ''/scheduled.json''))"

text \<open>
  \<^verbatim>\<open>json.MarshalIndent\<close> fails on a record list exactly when \<^verbatim>\<open>Time.MarshalJSON\<close> fails on
  one of the time fields, which it does when the year is outside 0..9999.
\<close>

definition year_in_range :: "world \<Rightarrow> int \<Rightarrow> bool" where
  "year_in_range w t \<longleftrightarrow> 0 \<le> time_Year w t \<and> time_Year w t \<le> 9999"

definition encodable :: "world \<Rightarrow> ScheduledEmailData \<Rightarrow> bool" where
  "encodable w e \<longleftrightarrow>
     year_in_range w (ScheduledAt e) \<and> year_in_range w (CreatedAt e) \<and> year_in_range w (SentAt e)"

definition LoadScheduledEmails :: "world \<Rightarrow> string + ScheduledEmailData list" where
  "LoadScheduledEmails w =
     (case getScheduledPath w of
        Inl t \<Rightarrow> Inl t
      | Inr path \<Rightarrow>
          (case disk w of
             NoFile \<Rightarrow> Inr []
           | Unreadable t \<Rightarrow> Inl (''failed to read scheduled emails: '' @ t)
           | Malformed t \<Rightarrow> Inl (''failed to parse scheduled emails: '' @ t)
           | Stored emails \<Rightarrow>
               if list_all (encodable w) emails then Inr emails
               else Inl (''failed to parse scheduled emails: '' @ ''year outside of range [0,9999]'')))"

definition SaveScheduledEmails :: "ScheduledEmailData list \<Rightarrow> world \<Rightarrow> string option \<times> world" where
  "SaveScheduledEmails emails w =
     (case EnsureConfigDir w of
        Some t \<Rightarrow> (Some t, w)
      | None \<Rightarrow>
          (case getScheduledPath w of
             Inl t \<Rightarrow> (Some t, w)
           | Inr path \<Rightarrow>
               if \<not> list_all (encodable w) emails
               then (Some (''failed to marshal scheduled emails: '' @
                           ''json: error calling MarshalJSON for type time.Time: '' @
                           ''Time.MarshalJSON: year outside of range [0,9999]''), w)
               else (case write_err w of
                       Some t \<Rightarrow> (Some (''failed to write scheduled emails: '' @ t), w)
                     | None \<Rightarrow> (None, w\<lparr>disk := Stored emails\<rparr>))))"

text \<open>\<^verbatim>\<open>fmt.Sprintf("%d", n)\<close>: the decimal digits of \<open>n\<close>, after a minus sign when \<open>n < 0\<close>.\<close>

definition digit :: "nat \<Rightarrow> char" where
  "digit d = char_of (48 + d)"

function decimal :: "nat \<Rightarrow> string" where
  "decimal n = (if n < 10 then [digit n] else decimal (n div 10) @ [digit (n mod 10)])"
  by pat_completeness auto
termination
  by (relation "measure id") auto

declare decimal.simps [simp del]

definition Sprintf_d :: "int \<Rightarrow> string" where
  "Sprintf_d n = (if n < 0 then CHR ''-'' # decimal (nat (- n)) else decimal (nat n))"

text \<open>\<^verbatim>\<open>UnixNano()\<close> is computed in 64-bit signed arithmetic, which wraps.\<close>

definition UnixNano :: "int \<Rightarrow> int" where
  "UnixNano t = (t + 2 ^ 63) mod 2 ^ 64 - 2 ^ 63"

definition generateID :: "world \<Rightarrow> string \<times> world" where
  "generateID w = (let (now, w1) = time_Now w in (Sprintf_d (UnixNano now), w1))"

definition AddScheduledEmail :: "ScheduledEmailData \<Rightarrow> world \<Rightarrow> string option \<times> world" where
  "AddScheduledEmail email w =
     (case LoadScheduledEmails w of
        Inl t \<Rightarrow> (Some t, w)
      | Inr emails \<Rightarrow>
          (let (newID, w1) = generateID w;
               (now, w2) = time_Now w1;
               email' = email\<lparr>ID := newID, CreatedAt := now, Sent := False\<rparr>
           in SaveScheduledEmails (emails @ [email']) w2))"

text \<open>The loop of \<^verbatim>\<open>GetPendingScheduledEmails\<close>, appending to \<^verbatim>\<open>pending\<close>.\<close>

fun pending_loop :: "string \<Rightarrow> int \<Rightarrow> ScheduledEmailData list \<Rightarrow> ScheduledEmailData list
    \<Rightarrow> ScheduledEmailData list" where
  "pending_loop accountName now [] pending = pending"
| "pending_loop accountName now (e # es) pending =
     (if \<not> Sent e \<and> Error e = [] \<and> ScheduledAt e < now
      then (if accountName = [] \<or> Account e = accountName
            then pending_loop accountName now es (pending @ [e])
            else pending_loop accountName now es pending)
      else pending_loop accountName now es pending)"

definition GetPendingScheduledEmails :: "string \<Rightarrow> world \<Rightarrow> (string + ScheduledEmailData list) \<times> world" where
  "GetPendingScheduledEmails accountName w =
     (case LoadScheduledEmails w of
        Inl t \<Rightarrow> (Inl t, w)
      | Inr emails \<Rightarrow>
          (let (now, w1) = time_Now w
           in (Inr (pending_loop accountName now emails []), w1)))"

text \<open>
  The loop of \<^verbatim>\<open>UpdateScheduledEmail\<close>: the first record whose \<^verbatim>\<open>ID\<close> is \<open>eid\<close> is
  updated in place and the loop ends. The closure may read the clock, so it takes and
  returns the world. The result is the list, \<^verbatim>\<open>found\<close>, and the world.
\<close>

fun update_loop :: "string \<Rightarrow> (ScheduledEmailData \<Rightarrow> world \<Rightarrow> ScheduledEmailData \<times> world)
    \<Rightarrow> ScheduledEmailData list \<Rightarrow> world \<Rightarrow> ScheduledEmailData list \<times> bool \<times> world" where
  "update_loop eid updateFn [] w = ([], False, w)"
| "update_loop eid updateFn (e # es) w =
     (if ID e = eid
      then (let (e', w1) = updateFn e w in (e' # es, True, w1))
      else (let (es', found, w1) = update_loop eid updateFn es w in (e # es', found, w1)))"

definition UpdateScheduledEmail :: "string \<Rightarrow> (ScheduledEmailData \<Rightarrow> world \<Rightarrow> ScheduledEmailData \<times> world)
    \<Rightarrow> world \<Rightarrow> string option \<times> world" where
  "UpdateScheduledEmail eid updateFn w =
     (case LoadScheduledEmails w of
        Inl t \<Rightarrow> (Some t, w)
      | Inr emails \<Rightarrow>
          (let (emails', found, w1) = update_loop eid updateFn emails w
           in if \<not> found
              then (Some (''scheduled email '' @ [CHR 0x27] @ eid @ [CHR 0x27] @ '' not found''), w1)
              else SaveScheduledEmails emails' w1))"

definition MarkScheduledEmailSent :: "string \<Rightarrow> string \<Rightarrow> world \<Rightarrow> string option \<times> world" where
  "MarkScheduledEmailSent eid messageID w =
     UpdateScheduledEmail eid
       (\<lambda>e w0. let (now, w1) = time_Now w0 in (e\<lparr>Sent := True, SentAt := now\<rparr>, w1)) w"

definition MarkScheduledEmailError :: "string \<Rightarrow> string \<Rightarrow> world \<Rightarrow> string option \<times> world" where
  "MarkScheduledEmailError eid errMsg w =
     UpdateScheduledEmail eid (\<lambda>e w0. (e\<lparr>Error := errMsg\<rparr>, w0)) w"

text \<open>The loop of \<^verbatim>\<open>ClearSentScheduledEmails\<close>, appending to \<^verbatim>\<open>remaining\<close>.\<close>

fun clear_sent_loop :: "string \<Rightarrow> ScheduledEmailData list \<Rightarrow> ScheduledEmailData list
    \<Rightarrow> ScheduledEmailData list" where
  "clear_sent_loop accountName [] remaining = remaining"
| "clear_sent_loop accountName (e # es) remaining =
     (if \<not> Sent e \<or> (accountName \<noteq> [] \<and> Account e \<noteq> accountName)
      then clear_sent_loop accountName es (remaining @ [e])
      else clear_sent_loop accountName es remaining)"

definition ClearSentScheduledEmails :: "string \<Rightarrow> world \<Rightarrow> string option \<times> world" where
  "ClearSentScheduledEmails accountName w =
     (case LoadScheduledEmails w of
        Inl t \<Rightarrow> (Some t, w)
      | Inr emails \<Rightarrow> SaveScheduledEmails (clear_sent_loop accountName emails []) w)"

text \<open>The store can be written: the directories can be made and the file written.\<close>

definition writable :: "world \<Rightarrow> bool" where
  "writable w \<longleftrightarrow> EnsureConfigDir w = None \<and> write_err w = None"

section \<open>Accounts (package config)\<close>

record AccountConfig =
  ClientID :: string
  ClientSecret :: string
  CalendarID :: string

record Config =
  DefaultAccount :: string
  Accounts :: "string \<rightharpoonup> AccountConfig"

text \<open>What is at the path of \<^verbatim>\<open>config.json\<close>.\<close>

datatype config_disk = NoConfig | UnreadableConfig string | MalformedConfig string | StoredConfig Config

text \<open>
  What the modelled commands only read or call: the configuration file, the standard
  library's \<^verbatim>\<open>time.Parse\<close> (by layout) and \<^verbatim>\<open>time.Date(..., time.Local)\<close> (the instant with
  the same calendar fields in the local zone), the OAuth client (\<open>None\<close>: obtained), the
  Google API constructors and the Gmail calls, each returning the service's error text or
  its answer. For the listings it also holds \<^verbatim>\<open>strings.TrimSpace\<close>,
  \<^verbatim>\<open>time.ParseInLocation\<close> in the local zone (by layout), the order in which Go ranges
  over the accounts map (\<open>range_order\<close>), the order in which the goroutines started for a
  list of accounts reach the error channel or the lock (\<open>finish_order\<close>), the Calendar
  service's answer to an events query (account, calendar, bounds, optional cap) as the
  rows \<^verbatim>\<open>eventToSummary\<close> makes of it, the Gmail service's answer to a message query
  (account, optional query, optional cap) and the row \<^verbatim>\<open>getMessageSummary\<close> reads for a
  message id.
\<close>

record DraftEmail =
  draft_To :: "string list"
  draft_CC :: "string list"
  draft_BCC :: "string list"
  draft_Subject :: string
  draft_Body :: string
  draft_IsHTML :: bool

text \<open>The rows of the two listings (package output).\<close>

record EmailSummary =
  email_ID :: string
  email_Account :: string
  From :: string
  email_Subject :: string
  Date :: int
  Snippet :: string
  HasAttach :: bool

record CalendarEventSummary =
  event_ID :: string
  event_Account :: string
  event_CalendarID :: string
  event_Summary :: string
  Start :: int
  End :: int
  Location :: string
  Status :: string
  AllDay :: bool

record env =
  config_file :: config_disk
  time_Parse :: "string \<Rightarrow> string \<Rightarrow> int option"
  time_Date_Local :: "int \<Rightarrow> int"
  auth_GetClient :: "string \<Rightarrow> AccountConfig \<Rightarrow> string option"
  gmail_NewService :: "string \<Rightarrow> string option"
  Drafts_Create :: "string \<Rightarrow> DraftEmail \<Rightarrow> string + string"
  Drafts_Send :: "string \<Rightarrow> string \<Rightarrow> string + string"
  strings_TrimSpace :: "string \<Rightarrow> string"
  time_ParseInLocation :: "string \<Rightarrow> string \<Rightarrow> int option"
  range_order :: "(string \<rightharpoonup> AccountConfig) \<Rightarrow> string list"
  finish_order :: "string list \<Rightarrow> string list"
  calendar_NewService :: "string \<Rightarrow> string option"
  Events_List :: "string \<Rightarrow> string \<Rightarrow> int \<Rightarrow> int \<Rightarrow> int option \<Rightarrow> string + CalendarEventSummary list"
  Messages_List :: "string \<Rightarrow> string option \<Rightarrow> int option \<Rightarrow> string + string list"
  Messages_Get :: "string \<Rightarrow> string \<Rightarrow> string + EmailSummary"

definition GetConfigPath :: "world \<Rightarrow> string + string" where
  "GetConfigPath w =
     (case GetConfigDir w of
        Inl t \<Rightarrow> Inl t
      | Inr configDir \<Rightarrow> Inr (configDir @ ''/config.json''))"

definition Load :: "env \<Rightarrow> world \<Rightarrow> string + Config" where
  "Load env w =
     (case GetConfigPath w of
        Inl t \<Rightarrow> Inl t
      | Inr configPath \<Rightarrow>
          (case config_file env of
             NoConfig \<Rightarrow> Inr \<lparr>DefaultAccount = [], Accounts = Map.empty\<rparr>
           | UnreadableConfig t \<Rightarrow> Inl (''failed to read config file: '' @ t)
           | MalformedConfig t \<Rightarrow> Inl (''failed to parse config file: '' @ t)
           | StoredConfig cfg \<Rightarrow> Inr cfg))"

definition GetAccount :: "Config \<Rightarrow> string \<Rightarrow> string + (string \<times> AccountConfig)" where
  "GetAccount c name0 =
     (let name = (if name0 = [] then DefaultAccount c else name0)
      in if name = [] then Inl ''no account specified and no default account set''
         else (case Accounts c name of
                 None \<Rightarrow> Inl (''account '' @ [CHR 0x27] @ name @ [CHR 0x27] @ '' does not exist'')
               | Some account \<Rightarrow> Inr (name, account)))"

section \<open>The Gmail client (package gmail)\<close>

text \<open>A client is the name of its account; the service handle inside it is opaque.\<close>

definition NewClient :: "env \<Rightarrow> string \<Rightarrow> AccountConfig \<Rightarrow> string + string" where
  "NewClient env accountName account =
     (case auth_GetClient env accountName account of
        Some t \<Rightarrow> Inl (''failed to get authenticated client: '' @ t)
      | None \<Rightarrow>
          (case gmail_NewService env accountName of
             Some t \<Rightarrow> Inl (''failed to create Gmail service: '' @ t)
           | None \<Rightarrow> Inr accountName))"

text \<open>
  \<^verbatim>\<open>CreateDraft\<close> and \<^verbatim>\<open>SendDraft\<close> issue one request each; the world logs a created
  draft in \<open>drafts\<close> and every send request in \<open>outbox\<close>.
\<close>

definition CreateDraft :: "env \<Rightarrow> string \<Rightarrow> DraftEmail
    \<Rightarrow> world \<Rightarrow> (string + string) \<times> world" where
  "CreateDraft env client draft w =
     (case Drafts_Create env client draft of
        Inl t \<Rightarrow> (Inl (''failed to create draft: '' @ t), w)
      | Inr draftID \<Rightarrow> (Inr draftID, w\<lparr>drafts := drafts w @ [(client, draftID)]\<rparr>))"

definition SendDraft :: "env \<Rightarrow> string \<Rightarrow> string \<Rightarrow> world \<Rightarrow> (string + string) \<times> world" where
  "SendDraft env client draftID w =
     (case Drafts_Send env client draftID of
        Inl t \<Rightarrow> (Inl (''failed to send draft: '' @ t), w\<lparr>outbox := outbox w @ [(client, draftID)]\<rparr>)
      | Inr messageID \<Rightarrow> (Inr messageID, w\<lparr>outbox := outbox w @ [(client, draftID)]\<rparr>))"

section \<open>The mail commands (package cmd)\<close>

definition local_layouts :: "string list" where
  "local_layouts = [''2006-01-02T15:04:05'', ''2006-01-02 15:04:05'', ''2006-01-02T15:04'', ''2006-01-02 15:04'']"

fun parse_loop :: "env \<Rightarrow> string list \<Rightarrow> string \<Rightarrow> string + int" where
  "parse_loop env [] s = Inl (''could not parse datetime: '' @ s)"
| "parse_loop env (format # formats) s =
     (case time_Parse env format s of
        Some t \<Rightarrow> Inr (if format \<in> set local_layouts then time_Date_Local env t else t)
      | None \<Rightarrow> parse_loop env formats s)"

definition parseDateTime :: "env \<Rightarrow> string \<Rightarrow> string + int" where
  "parseDateTime env s = parse_loop env (''2006-01-02T15:04:05Z07:00'' # local_layouts) s"

record schedule_flags =
  flag_account :: string
  flag_to :: "string list"
  flag_cc :: "string list"
  flag_bcc :: "string list"
  flag_subject :: string
  flag_body :: string
  flag_html :: bool
  flag_at :: string

definition mailScheduleCmd :: "env \<Rightarrow> schedule_flags \<Rightarrow> world \<Rightarrow> string option \<times> world" where
  "mailScheduleCmd env fl w =
     (if length (flag_to fl) = 0 then (Some ''at least one recipient is required (--to)'', w)
      else if flag_subject fl = [] then (Some ''subject is required (--subject)'', w)
      else if flag_body fl = [] then (Some ''body is required (--body)'', w)
      else if flag_at fl = [] then (Some ''schedule time is required (--at)'', w)
      else
        (case parseDateTime env (flag_at fl) of
           Inl t \<Rightarrow> (Some (''invalid schedule time: '' @ t), w)
         | Inr scheduledAt \<Rightarrow>
             (let (now, w1) = time_Now w
              in if scheduledAt < now then (Some ''schedule time must be in the future'', w1)
                 else
                   (case Load env w1 of
                      Inl t \<Rightarrow> (Some (''failed to load config: '' @ t), w1)
                    | Inr cfg \<Rightarrow>
                        (case GetAccount cfg (flag_account fl) of
                           Inl t \<Rightarrow> (Some t, w1)
                         | Inr (name, acc) \<Rightarrow>
                             (case NewClient env name acc of
                                Inl t \<Rightarrow> (Some t, w1)
                              | Inr client \<Rightarrow>
                                  (case CreateDraft env client
                                          \<lparr>draft_To = flag_to fl, draft_CC = flag_cc fl, draft_BCC = flag_bcc fl,
                                           draft_Subject = flag_subject fl, draft_Body = flag_body fl,
                                           draft_IsHTML = flag_html fl\<rparr> w1 of
                                     (Inl t, w2) \<Rightarrow> (Some t, w2)
                                   | (Inr draftID, w2) \<Rightarrow>
                                       (case AddScheduledEmail
                                               \<lparr>ID = [], Account = name, DraftID = draftID,
                                                To = flag_to fl, CC = flag_cc fl, BCC = flag_bcc fl,
                                                Subject = flag_subject fl, Body = flag_body fl,
                                                IsHTML = flag_html fl, ScheduledAt = scheduledAt,
                                                CreatedAt = 0, Sent = False, SentAt = 0, Error = []\<rparr> w2 of
                                          (Some t, w3) \<Rightarrow> (Some (''failed to schedule email: '' @ t), w3)
                                        | (None, w3) \<Rightarrow> (None, w3)))))))))"

datatype report = NothingReady | DryRun "ScheduledEmailData list" | Summary nat nat

fun send_loop :: "env \<Rightarrow> Config \<Rightarrow> ScheduledEmailData list \<Rightarrow> nat \<Rightarrow> nat \<Rightarrow> world \<Rightarrow> nat \<times> nat \<times> world" where
  "send_loop env cfg [] sentCount errorCount w = (sentCount, errorCount, w)"
| "send_loop env cfg (e # es) sentCount errorCount w =
     (case GetAccount cfg (Account e) of
        Inl err \<Rightarrow>
          (let (r, w1) = MarkScheduledEmailError (ID e) err w
           in send_loop env cfg es sentCount (errorCount + 1) w1)
      | Inr (name, acc) \<Rightarrow>
          (case NewClient env (Account e) acc of
             Inl err \<Rightarrow>
               (let (r, w1) = MarkScheduledEmailError (ID e) err w
                in send_loop env cfg es sentCount (errorCount + 1) w1)
           | Inr client \<Rightarrow>
               (case SendDraft env client (DraftID e) w of
                  (Inl err, w1) \<Rightarrow>
                    (let (r, w2) = MarkScheduledEmailError (ID e) err w1
                     in send_loop env cfg es sentCount (errorCount + 1) w2)
                | (Inr msgID, w1) \<Rightarrow>
                    (let (r, w2) = MarkScheduledEmailSent (ID e) msgID w1
                     in send_loop env cfg es (sentCount + 1) errorCount w2))))"

definition mailScheduledSendCmd :: "env \<Rightarrow> string \<Rightarrow> bool \<Rightarrow> world \<Rightarrow> (string + report) \<times> world" where
  "mailScheduledSendCmd env accountName dryRun w =
     (case GetPendingScheduledEmails accountName w of
        (Inl t, w1) \<Rightarrow> (Inl t, w1)
      | (Inr pending, w1) \<Rightarrow>
          if length pending = 0 then (Inr NothingReady, w1)
          else if dryRun then (Inr (DryRun pending), w1)
          else (case Load env w1 of
                  Inl t \<Rightarrow> (Inl (''failed to load config: '' @ t), w1)
                | Inr cfg \<Rightarrow>
                    (let (sentCount, errorCount, w2) = send_loop env cfg pending 0 0 w1
                     in (Inr (Summary sentCount errorCount), w2))))"

section \<open>Sorting the events (package cmd)\<close>

text \<open>
  \<^verbatim>\<open>sortEventsByStart\<close> sorts the slice in place with two nested loops. The inner loop, for
  a fixed \<open>i\<close>, runs \<open>j\<close> up to the length and swaps \<open>events[i]\<close> and \<open>events[j]\<close> when the
  latter starts earlier; the outer loop runs \<open>i\<close> from 0 while \<open>i < len(events) - 1\<close>.
\<close>

function sort_inner :: "nat \<Rightarrow> nat \<Rightarrow> CalendarEventSummary list \<Rightarrow> CalendarEventSummary list" where
  "sort_inner i j events =
     (if j < length events
      then sort_inner i (j + 1)
             (if Start (events ! j) < Start (events ! i)
              then events[i := events ! j, j := events ! i]
              else events)
      else events)"
  by pat_completeness auto
termination
  by (relation "measure (\<lambda>(i, j, events). length events - j)") auto

declare sort_inner.simps [simp del]

lemma length_sort_inner [simp]: "length (sort_inner i j events) = length events"
  by (induction i j events rule: sort_inner.induct) (subst sort_inner.simps, simp)

function sort_outer :: "nat \<Rightarrow> CalendarEventSummary list \<Rightarrow> CalendarEventSummary list" where
  "sort_outer i events =
     (if i + 1 < length events
      then sort_outer (i + 1) (sort_inner i (i + 1) events)
      else events)"
  by pat_completeness auto
termination
  by (relation "measure (\<lambda>(i, events). length events - i)") auto

declare sort_outer.simps [simp del]

definition sortEventsByStart :: "CalendarEventSummary list \<Rightarrow> CalendarEventSummary list" where
  "sortEventsByStart events = sort_outer 0 events"

text \<open>Everything before position \<open>i\<close> starts no later than everything after it.\<close>

definition settled :: "nat \<Rightarrow> CalendarEventSummary list \<Rightarrow> bool" where
  "settled i xs \<longleftrightarrow> (\<forall>a b. a < b \<and> b < length xs \<and> a < i \<longrightarrow> Start (xs ! a) \<le> Start (xs ! b))"

text \<open>Position \<open>i\<close> starts no later than the positions after it and before \<open>j\<close>.\<close>

definition least_upto :: "nat \<Rightarrow> nat \<Rightarrow> CalendarEventSummary list \<Rightarrow> bool" where
  "least_upto i j xs \<longleftrightarrow> (\<forall>k. i < k \<and> k < j \<and> k < length xs \<longrightarrow> Start (xs ! i) \<le> Start (xs ! k))"

section \<open>The listings (packages calendar, gmail and cmd)\<close>

record calendar_Client =
  client_accountName :: string
  client_calendarID :: string

definition calendar_NewClient :: "env \<Rightarrow> string \<Rightarrow> AccountConfig \<Rightarrow> string + calendar_Client" where
  "calendar_NewClient env accountName account =
     (case auth_GetClient env accountName account of
        Some t \<Rightarrow> Inl (''failed to get authenticated client: '' @ t)
      | None \<Rightarrow>
          (case calendar_NewService env accountName of
             Some t \<Rightarrow> Inl (''failed to create Calendar service: '' @ t)
           | None \<Rightarrow>
               Inr \<lparr>client_accountName = accountName,
                    client_calendarID = (if CalendarID account = [] then ''primary'' else CalendarID account)\<rparr>))"

definition ListEvents :: "env \<Rightarrow> calendar_Client \<Rightarrow> int \<Rightarrow> int \<Rightarrow> int \<Rightarrow> string + CalendarEventSummary list" where
  "ListEvents env c fromTime toTime maxResults =
     (case Events_List env (client_accountName c) (client_calendarID c) fromTime toTime
             (if maxResults > 0 then Some maxResults else None) of
        Inl t \<Rightarrow> Inl (''failed to list events: '' @ t)
      | Inr items \<Rightarrow>
          Inr (map (\<lambda>summary. summary\<lparr>event_Account := client_accountName c,
                                        event_CalendarID := client_calendarID c\<rparr>) items))"

text \<open>The loop of \<^verbatim>\<open>ListMessages\<close>: a message whose summary cannot be read is skipped.\<close>

fun summaries_loop :: "env \<Rightarrow> string \<Rightarrow> string list \<Rightarrow> EmailSummary list \<Rightarrow> EmailSummary list" where
  "summaries_loop env client [] summaries = summaries"
| "summaries_loop env client (msg # msgs) summaries =
     (case Messages_Get env client msg of
        Inl err \<Rightarrow> summaries_loop env client msgs summaries
      | Inr summary \<Rightarrow>
          summaries_loop env client msgs (summaries @ [summary\<lparr>email_Account := client\<rparr>]))"

definition ListMessages :: "env \<Rightarrow> string \<Rightarrow> string \<Rightarrow> int \<Rightarrow> string + EmailSummary list" where
  "ListMessages env client query maxResults =
     (case Messages_List env client (if query \<noteq> [] then Some query else None)
             (if maxResults > 0 then Some maxResults else None) of
        Inl t \<Rightarrow> Inl (''failed to list messages: '' @ t)
      | Inr msgs \<Rightarrow> Inr (summaries_loop env client msgs []))"

definition GetAllAccounts :: "env \<Rightarrow> Config \<Rightarrow> string list" where
  "GetAllAccounts env c = range_order env (Accounts c)"

definition HasAccounts :: "Config \<Rightarrow> bool" where
  "HasAccounts c \<longleftrightarrow> Accounts c \<noteq> Map.empty"

text \<open>\<^verbatim>\<open>fmt.Errorf("[%s] %w", name, err)\<close>.\<close>

definition tagged :: "string \<Rightarrow> string \<Rightarrow> string" where
  "tagged name t = ''['' @ name @ ''] '' @ t"

text \<open>What the goroutine started for one account does: it ends with one error on the
  channel or with its rows to append.\<close>

definition events_task :: "env \<Rightarrow> Config \<Rightarrow> int \<Rightarrow> int \<Rightarrow> int \<Rightarrow> string \<Rightarrow> string + CalendarEventSummary list" where
  "events_task env cfg fromTime toTime limit name =
     (case GetAccount cfg name of
        Inl t \<Rightarrow> Inl (tagged name t)
      | Inr (n, acc) \<Rightarrow>
          (case calendar_NewClient env name acc of
             Inl t \<Rightarrow> Inl (tagged name t)
           | Inr client \<Rightarrow>
               (case ListEvents env client fromTime toTime limit of
                  Inl t \<Rightarrow> Inl (tagged name t)
                | Inr events \<Rightarrow> Inr events)))"

definition emails_task :: "env \<Rightarrow> Config \<Rightarrow> string \<Rightarrow> int \<Rightarrow> string \<Rightarrow> string + EmailSummary list" where
  "emails_task env cfg query limit name =
     (case GetAccount cfg name of
        Inl t \<Rightarrow> Inl (tagged name t)
      | Inr (n, acc) \<Rightarrow>
          (case NewClient env name acc of
             Inl t \<Rightarrow> Inl (tagged name t)
           | Inr client \<Rightarrow>
               (case ListMessages env client query limit of
                  Inl t \<Rightarrow> Inl (tagged name t)
                | Inr emails \<Rightarrow> Inr emails)))"

text \<open>
  The goroutines run concurrently, and each either sends its error on the buffered
  channel or appends its rows to the shared slice while holding the mutex. So after
  \<^verbatim>\<open>wg.Wait()\<close> the channel and the slice hold what running the tasks one after another,
  in the order \<open>names\<close> in which they reached the channel or the lock, leaves in them.
\<close>

fun fan_in :: "(string \<Rightarrow> string + 'a list) \<Rightarrow> string list \<Rightarrow> string list \<Rightarrow> 'a list \<Rightarrow> string list \<times> 'a list" where
  "fan_in task [] errChan allRows = (errChan, allRows)"
| "fan_in task (name # names) errChan allRows =
     (case task name of
        Inl err \<Rightarrow> fan_in task names (errChan @ [err]) allRows
      | Inr rows \<Rightarrow> fan_in task names errChan (allRows @ rows))"

definition parseDate :: "env \<Rightarrow> string \<Rightarrow> string + int" where
  "parseDate env s0 =
     (let s = strings_TrimSpace env s0
      in case time_ParseInLocation env ''2006-01-02'' s of
           Some t \<Rightarrow> Inr t
         | None \<Rightarrow>
             (case time_ParseInLocation env ''01/02/2006'' s of
                Some t \<Rightarrow> Inr t
              | None \<Rightarrow>
                  (case time_ParseInLocation env ''02-01-2006'' s of
                     Some t \<Rightarrow> Inr t
                   | None \<Rightarrow> Inl (''could not parse date: '' @ s @ '' (use YYYY-MM-DD format)''))))"

record list_flags =
  ls_account :: string
  ls_all :: bool
  ls_from :: string
  ls_to :: string
  ls_query :: string
  ls_limit :: int

text \<open>The accounts a listing queries: all of them, or the one named (or the default).\<close>

definition selected_accounts :: "env \<Rightarrow> Config \<Rightarrow> list_flags \<Rightarrow> string + string list" where
  "selected_accounts env cfg fl =
     (if ls_all fl then Inr (GetAllAccounts env cfg)
      else (case GetAccount cfg (ls_account fl) of
              Inl t \<Rightarrow> Inl t
            | Inr (name, acc) \<Rightarrow> Inr [name]))"

text \<open>
  The block of \<^verbatim>\<open>cal list\<close> that parses the date range: the start is the \<^verbatim>\<open>--from\<close>
  date or the clock reading, the end is the last second of the \<^verbatim>\<open>--to\<close> date or seven
  days after the start. A duration is a number of nanoseconds.
\<close>

definition date_range :: "env \<Rightarrow> list_flags \<Rightarrow> world \<Rightarrow> (string + int \<times> int) \<times> world" where
  "date_range env fl w =
     (case (if ls_from fl \<noteq> []
            then (case parseDate env (ls_from fl) of
                    Inl t \<Rightarrow> (Inl (''invalid --from date: '' @ t), w)
                  | Inr t \<Rightarrow> (Inr t, w))
            else (let (now, w1) = time_Now w in (Inr now, w1))) of
        (Inl t, w1) \<Rightarrow> (Inl t, w1)
      | (Inr fromTime, w1) \<Rightarrow>
          (case (if ls_to fl \<noteq> []
                 then (case parseDate env (ls_to fl) of
                         Inl t \<Rightarrow> Inl (''invalid --to date: '' @ t)
                       | Inr t \<Rightarrow> Inr (t + (24 * 3600000000000 - 1000000000)))
                 else Inr (fromTime + 7 * 24 * 3600000000000)) of
             Inl t \<Rightarrow> (Inl t, w1)
           | Inr toTime \<Rightarrow> (Inr (fromTime, toTime), w1)))"

text \<open>
  \<^verbatim>\<open>cal list\<close> returns an error, or the warnings it printed and the rows it handed to
  \<^verbatim>\<open>PrintCalendarEventList\<close>.
\<close>

definition calListCmd :: "env \<Rightarrow> list_flags \<Rightarrow> world \<Rightarrow> (string + string list \<times> CalendarEventSummary list) \<times> world" where
  "calListCmd env fl w =
     (case date_range env fl w of
        (Inl t, w1) \<Rightarrow> (Inl t, w1)
      | (Inr (fromTime, toTime), w1) \<Rightarrow>
          (case Load env w1 of
             Inl t \<Rightarrow> (Inl (''failed to load config: '' @ t), w1)
           | Inr cfg \<Rightarrow>
               if \<not> HasAccounts cfg
               then (Inl (''no accounts configured. Run '' @ [CHR 0x27] @ ''gcli auth add <name>''
                          @ [CHR 0x27] @ '' first''), w1)
               else (case selected_accounts env cfg fl of
                       Inl t \<Rightarrow> (Inl t, w1)
                     | Inr accounts \<Rightarrow>
                         (let (errs, allEvents) =
                                fan_in (events_task env cfg fromTime toTime (ls_limit fl))
                                  (finish_order env accounts) [] []
                          in (Inr (errs, sortEventsByStart allEvents), w1)))))"

text \<open>\<^verbatim>\<open>mail read\<close> returns an error, or the warnings it printed and the rows it handed to
  \<^verbatim>\<open>PrintEmailList\<close>.\<close>

definition mailReadCmd :: "env \<Rightarrow> list_flags \<Rightarrow> world \<Rightarrow> (string + string list \<times> EmailSummary list) \<times> world" where
  "mailReadCmd env fl w =
     (case Load env w of
        Inl t \<Rightarrow> (Inl (''failed to load config: '' @ t), w)
      | Inr cfg \<Rightarrow>
          if \<not> HasAccounts cfg
          then (Inl (''no accounts configured. Run '' @ [CHR 0x27] @ ''gcli auth add <name>''
                     @ [CHR 0x27] @ '' first''), w)
          else (case selected_accounts env cfg fl of
                  Inl t \<Rightarrow> (Inl t, w)
                | Inr accounts \<Rightarrow>
                    (let (errs, allEmails) =
                           fan_in (emails_task env cfg (ls_query fl) (ls_limit fl))
                             (finish_order env accounts) [] []
                     in (Inr (errs, allEmails), w))))"

section \<open>What a listing owes each account\<close>

text \<open>
  The rows of the accounts that answered, one account after the other in the order
  \<open>names\<close>, and the errors of the accounts that did not.
\<close>

definition answers :: "(string \<Rightarrow> string + 'a list) \<Rightarrow> string list \<Rightarrow> 'a list" where
  "answers task names =
     concat (map (\<lambda>name. case task name of Inl err \<Rightarrow> [] | Inr rows \<Rightarrow> rows) names)"

definition failures :: "(string \<Rightarrow> string + 'a list) \<Rightarrow> string list \<Rightarrow> string list" where
  "failures task names =
     concat (map (\<lambda>name. case task name of Inl err \<Rightarrow> [err] | Inr rows \<Rightarrow> []) names)"

text \<open>The summaries of the messages \<open>ids\<close> that can be read, in the order of \<open>ids\<close>, each
  tagged with the account.\<close>

definition readable_rows :: "env \<Rightarrow> string \<Rightarrow> string list \<Rightarrow> EmailSummary list" where
  "readable_rows env name ids =
     concat (map (\<lambda>m. case Messages_Get env name m of
                         Inl err \<Rightarrow> []
                       | Inr summary \<Rightarrow> [summary\<lparr>email_Account := name\<rparr>]) ids)"

section \<open>What a run of the dispatcher owes each record\<close>

text \<open>
  What becomes of one due record, from the record, the configuration and the environment
  alone: the error text of the first of account lookup, client construction and send
  request to fail, or the message id the service returns.
\<close>

definition outcome :: "env \<Rightarrow> Config \<Rightarrow> ScheduledEmailData \<Rightarrow> string + string" where
  "outcome env cfg e =
     (case GetAccount cfg (Account e) of
        Inl err \<Rightarrow> Inl err
      | Inr (name, acc) \<Rightarrow>
          (case NewClient env (Account e) acc of
             Inl err \<Rightarrow> Inl err
           | Inr client \<Rightarrow>
               (case Drafts_Send env client (DraftID e) of
                  Inl t \<Rightarrow> Inl (''failed to send draft: '' @ t)
                | Inr messageID \<Rightarrow> Inr messageID)))"

text \<open>The record's account resolves and its client is built, so a send request is issued.\<close>

definition reaches_send :: "env \<Rightarrow> Config \<Rightarrow> ScheduledEmailData \<Rightarrow> bool" where
  "reaches_send env cfg e =
     (case GetAccount cfg (Account e) of
        Inl err \<Rightarrow> False
      | Inr (name, acc) \<Rightarrow> \<not> isl (NewClient env (Account e) acc))"

text \<open>The eligibility test of \<^verbatim>\<open>GetPendingScheduledEmails\<close>.\<close>

definition due :: "string \<Rightarrow> int \<Rightarrow> ScheduledEmailData \<Rightarrow> bool" where
  "due accountName now e \<longleftrightarrow>
     \<not> Sent e \<and> Error e = [] \<and> ScheduledAt e < now \<and> (accountName = [] \<or> Account e = accountName)"

text \<open>Record \<open>r\<close> is record \<open>e\<close> marked with \<open>e\<close>'s own outcome: the error text set, or
  \<^verbatim>\<open>Sent\<close> set and \<^verbatim>\<open>SentAt\<close> given some value.\<close>

definition marked :: "env \<Rightarrow> Config \<Rightarrow> ScheduledEmailData \<Rightarrow> ScheduledEmailData \<Rightarrow> bool" where
  "marked env cfg e r =
     (case outcome env cfg e of
        Inl t \<Rightarrow> r = e\<lparr>Error := t\<rparr>
      | Inr messageID \<Rightarrow> r\<lparr>SentAt := SentAt e\<rparr> = e\<lparr>Sent := True\<rparr>)"

section \<open>Sample data\<close>

text \<open>The zero value \<^verbatim>\<open>ScheduledEmailData{}\<close>, sample records, and a world with a working disk
  whose clock reads 100, 101, ...\<close>

definition blank :: ScheduledEmailData where
  "blank = \<lparr>ID = [], Account = [], DraftID = [], To = [], CC = [], BCC = [], Subject = [],
     Body = [], IsHTML = False, ScheduledAt = 0, CreatedAt = 0, Sent = False, SentAt = 0,
     Error = []\<rparr>"

definition sample_due :: ScheduledEmailData where
  "sample_due = blank\<lparr>ID := ''1'', Account := ''work'', DraftID := ''d1'', ScheduledAt := 50\<rparr>"
definition sample_sent :: ScheduledEmailData where
  "sample_sent = blank\<lparr>ID := ''2'', Account := ''work'', DraftID := ''d2'', ScheduledAt := 40, Sent := True, SentAt := 45\<rparr>"
definition sample_failed :: ScheduledEmailData where
  "sample_failed = blank\<lparr>ID := ''3'', Account := ''personal'', DraftID := ''d3'', ScheduledAt := 40, Error := ''boom''\<rparr>"
definition sample_now :: ScheduledEmailData where
  "sample_now = blank\<lparr>ID := ''4'', Account := ''personal'', DraftID := ''d4'', ScheduledAt := 100\<rparr>"
definition sample_sent_personal :: ScheduledEmailData where
  "sample_sent_personal = blank\<lparr>ID := ''5'', Account := ''personal'', DraftID := ''d5'', ScheduledAt := 40, Sent := True, SentAt := 45\<rparr>"

definition sample_world :: "ScheduledEmailData list \<Rightarrow> world" where
  "sample_world emails = \<lparr>home = Inr ''/home/u'', mkdir_err = (\<lambda>p. None), write_err = None,
     disk = Stored emails, time_Year = (\<lambda>t. 1970), clock = (\<lambda>n. 100 + int n), tick = 0,
     drafts = [], outbox = []\<rparr>"

definition sample_account :: AccountConfig where
  "sample_account = \<lparr>ClientID = ''id'', ClientSecret = ''secret'', CalendarID = []\<rparr>"

definition sample_config :: Config where
  "sample_config = \<lparr>DefaultAccount = ''work'',
     Accounts = [''work'' \<mapsto> sample_account, ''personal'' \<mapsto> sample_account]\<rparr>"

definition sample_event :: "string \<Rightarrow> int \<Rightarrow> CalendarEventSummary" where
  "sample_event i t = \<lparr>event_ID = i, event_Account = [], event_CalendarID = [], event_Summary = ''Meeting'',
     Start = t, End = t + 1, Location = [], Status = ''confirmed'', AllDay = False\<rparr>"

definition sample_email :: "string \<Rightarrow> int \<Rightarrow> EmailSummary" where
  "sample_email i t = \<lparr>email_ID = i, email_Account = [], From = ''a@example.com'', email_Subject = ''Hello'',
     Date = t, Snippet = [], HasAttach = False\<rparr>"

text \<open>An environment in which the account \<^verbatim>\<open>personal\<close> has no valid token, the draft
  \<^verbatim>\<open>d-bad\<close> cannot be sent, the calendar answers with three events out of order, the
  mailbox with two messages, the newer first, and goroutines finish in the reverse of the
  order they were started in.\<close>

definition sample_env :: env where
  "sample_env = \<lparr>config_file = StoredConfig sample_config,
     time_Parse = (\<lambda>layout s.
        if layout = ''2006-01-02T15:04:05Z07:00'' \<and> s = ''1970-01-01T00:00:00Z'' then Some 0
        else if layout = ''2006-01-02T15:04:05Z07:00'' \<and> s = ''1970-01-01T00:00:00.0000001Z'' then Some 100
        else None),
     time_Date_Local = (\<lambda>t. t),
     auth_GetClient = (\<lambda>name acc. if name = ''personal'' then Some ''token expired'' else None),
     gmail_NewService = (\<lambda>name. None),
     Drafts_Create = (\<lambda>name d. Inr ''d-new''),
     Drafts_Send = (\<lambda>name d. if d = ''d-bad'' then Inl ''no such draft'' else Inr (''m-'' @ d)),
     strings_TrimSpace = (\<lambda>s. s),
     time_ParseInLocation = (\<lambda>layout s. None),
     range_order = (\<lambda>m. filter (\<lambda>n. m n \<noteq> None) [''personal'', ''work'']),
     finish_order = rev,
     calendar_NewService = (\<lambda>name. None),
     Events_List = (\<lambda>name cal lo hi cap. Inr [sample_event ''e30'' 30, sample_event ''e10'' 10, sample_event ''e20'' 20]),
     Messages_List = (\<lambda>name q cap. Inr [''m2'', ''m1'']),
     Messages_Get = (\<lambda>name m. if m = ''m2'' then Inr (sample_email ''m2'' 200)
                              else if m = ''m1'' then Inr (sample_email ''m1'' 100)
                              else Inl ''not found'')\<rparr>"

definition sample_flags :: schedule_flags where
  "sample_flags = \<lparr>flag_account = [], flag_to = [''a@example.com''], flag_cc = [], flag_bcc = [],
     flag_subject = ''Hello'', flag_body = ''Message'', flag_html = False,
     flag_at = ''1970-01-01T00:00:00Z''\<rparr>"

text \<open>The same flags with the time that parses to 100, the record \<^verbatim>\<open>mail schedule\<close> then
  stores, and the world it leaves when the store held one record.\<close>

definition later_flags :: schedule_flags where
  "later_flags = sample_flags\<lparr>flag_at := ''1970-01-01T00:00:00.0000001Z''\<rparr>"

definition scheduled_record :: ScheduledEmailData where
  "scheduled_record = \<lparr>ID = ''101'', Account = ''work'', DraftID = ''d-new'',
     To = [''a@example.com''], CC = [], BCC = [], Subject = ''Hello'', Body = ''Message'',
     IsHTML = False, ScheduledAt = 100, CreatedAt = 102, Sent = False, SentAt = 0, Error = []\<rparr>"

definition schedule_result :: world where
  "schedule_result =
     (sample_world [sample_sent, scheduled_record])\<lparr>tick := 3, drafts := [(''work'', ''d-new'')]\<rparr>"

text \<open>A world with an empty store where the instants from 10000-01-01T00:00:00Z on are
  in the year 10000.\<close>

definition far_year_world :: world where
  "far_year_world =
     (sample_world [])\<lparr>time_Year := (\<lambda>t. if 253402300800000000000 \<le> t then 10000 else 1970)\<rparr>"

text \<open>A world with an empty store whose clock reads 100, 101, 100, 101, ...: the wall
  clock is set back between two runs of the program.\<close>

definition stepped_back_world :: world where
  "stepped_back_world = (sample_world [])\<lparr>clock := (\<lambda>n. 100 + int (n mod 2))\<rparr>"

text \<open>Reading a decimal numeral back, to show that \<open>decimal\<close> is injective.\<close>

definition undecimal :: "string \<Rightarrow> nat" where
  "undecimal s = foldl (\<lambda>a c. 10 * a + (of_char c - 48)) 0 s"

definition sample_no_token :: ScheduledEmailData where
  "sample_no_token = blank\<lparr>ID := ''6'', Account := ''personal'', DraftID := ''d6'', ScheduledAt := 60\<rparr>"
definition sample_bad_draft :: ScheduledEmailData where
  "sample_bad_draft = blank\<lparr>ID := ''7'', Account := ''work'', DraftID := ''d-bad'', ScheduledAt := 70\<rparr>"

definition sample_store :: "ScheduledEmailData list" where
  "sample_store = [sample_due, sample_sent, sample_no_token, sample_bad_draft, sample_now]"

definition sample_store_after :: "ScheduledEmailData list" where
  "sample_store_after =
     [sample_due\<lparr>Sent := True, SentAt := 100\<rparr>, sample_sent,
      sample_no_token\<lparr>Error := ''failed to get authenticated client: token expired''\<rparr>,
      sample_bad_draft\<lparr>Error := ''failed to send draft: no such draft''\<rparr>, sample_now]"

text \<open>A world whose clock reads 100 at every reading.\<close>

definition frozen_world :: "ScheduledEmailData list \<Rightarrow> world" where
  "frozen_world emails = (sample_world emails)\<lparr>clock := (\<lambda>n. 100)\<rparr>"

text \<open>The same with one due record in a file that cannot be opened for writing.\<close>

definition read_only_world :: world where
  "read_only_world = (frozen_world [sample_due])\<lparr>write_err := Some ''permission denied''\<rparr>"

text \<open>Two due records that were given the same id.\<close>

definition twin_store :: "ScheduledEmailData list" where
  "twin_store = [sample_no_token\<lparr>ID := ''100'', CreatedAt := 101\<rparr>,
                 sample_due\<lparr>ID := ''100'', CreatedAt := 101\<rparr>]"

definition all_flags :: list_flags where
  "all_flags = \<lparr>ls_account = [], ls_all = True, ls_from = [], ls_to = [], ls_query = [],
     ls_limit = 25\<rparr>"

text \<open>
  Three accounts, of which \<open>old\<close> has an expired token. The goroutines finish in the
  order work, personal, old. The work calendar answers with the later event first, and
  the work mailbox lists the newer message first and one message that cannot be read.
\<close>

definition listing_config :: Config where
  "listing_config = \<lparr>DefaultAccount = ''work'',
     Accounts = [''work'' \<mapsto> sample_account, ''personal'' \<mapsto> sample_account,
                 ''old'' \<mapsto> sample_account]\<rparr>"

definition listing_env :: env where
  "listing_env = sample_env\<lparr>config_file := StoredConfig listing_config,
     auth_GetClient := (\<lambda>name acc. if name = ''old'' then Some ''token expired'' else None),
     range_order := (\<lambda>m. filter (\<lambda>n. m n \<noteq> None) [''old'', ''personal'', ''work'']),
     Events_List := (\<lambda>name cal lo hi cap.
        if name = ''work'' then Inr [sample_event ''e30'' 30, sample_event ''e10'' 10]
        else Inr [sample_event ''e20'' 20]),
     Messages_List := (\<lambda>name q cap.
        if name = ''work'' then Inr [''m2'', ''gone'', ''m1''] else Inr [''m3'']),
     Messages_Get := (\<lambda>name m.
        if m = ''m2'' then Inr (sample_email ''m2'' 200)
        else if m = ''m1'' then Inr (sample_email ''m1'' 100)
        else if m = ''m3'' then Inr (sample_email ''m3'' 150)
        else Inl ''not found'')\<rparr>"

definition listed_event :: "string \<Rightarrow> string \<Rightarrow> int \<Rightarrow> CalendarEventSummary" where
  "listed_event name i t = (sample_event i t)\<lparr>event_Account := name, event_CalendarID := ''primary''\<rparr>"

definition listed_email :: "string \<Rightarrow> string \<Rightarrow> int \<Rightarrow> EmailSummary" where
  "listed_email name i t = (sample_email i t)\<lparr>email_Account := name\<rparr>"

section \<open>Facts about the store\<close>

lemma pending_loop_filter:
  "pending_loop a now es acc = acc @ filter (\<lambda>e. \<not> Sent e \<and> Error e = [] \<and> ScheduledAt e < now \<and> (a = [] \<or> Account e = a)) es"
  by (induction es arbitrary: acc) auto

lemma clear_sent_loop_filter:
  "clear_sent_loop a es acc = acc @ filter (\<lambda>e. \<not> Sent e \<or> (a \<noteq> [] \<and> Account e \<noteq> a)) es"
  by (induction es arbitrary: acc) auto

lemma year_in_range_frame [simp]:
  "year_in_range (w\<lparr>tick := n\<rparr>) = year_in_range w"
  "year_in_range (w\<lparr>disk := d\<rparr>) = year_in_range w"
  "year_in_range (w\<lparr>outbox := ob\<rparr>) = year_in_range w"
  "year_in_range (w\<lparr>drafts := ds\<rparr>) = year_in_range w"
  "year_in_range (w\<lparr>write_err := we\<rparr>) = year_in_range w"
  "year_in_range (w\<lparr>clock := c\<rparr>) = year_in_range w"
  by (simp_all add: year_in_range_def fun_eq_iff)

lemma encodable_frame [simp]:
  "encodable (w\<lparr>tick := n\<rparr>) = encodable w"
  "encodable (w\<lparr>disk := d\<rparr>) = encodable w"
  "encodable (w\<lparr>outbox := ob\<rparr>) = encodable w"
  "encodable (w\<lparr>drafts := ds\<rparr>) = encodable w"
  "encodable (w\<lparr>write_err := we\<rparr>) = encodable w"
  "encodable (w\<lparr>clock := c\<rparr>) = encodable w"
  by (simp_all add: encodable_def fun_eq_iff)

lemma encodable_Error [simp]: "encodable w (e\<lparr>Error := m\<rparr>) = encodable w e"
  by (simp add: encodable_def)

lemma encodable_Sent:
  "encodable w e \<Longrightarrow> year_in_range w t \<Longrightarrow> encodable w (e\<lparr>Sent := True, SentAt := t\<rparr>)"
  by (simp add: encodable_def)

lemma Save_writable:
  "writable w \<Longrightarrow> list_all (encodable w) es \<Longrightarrow>
   SaveScheduledEmails es w = (None, w\<lparr>disk := Stored es\<rparr>)"
  by (auto simp: writable_def SaveScheduledEmails_def EnsureConfigDir_def getScheduledPath_def GetTokensDir_def split: sum.splits option.splits)

lemma Loaded_encodable:
  "LoadScheduledEmails w = Inr emails \<Longrightarrow> list_all (encodable w) emails"
  by (auto simp: LoadScheduledEmails_def split: sum.splits disk.splits if_splits)

lemma encodable_sample_world [simp]: "encodable (sample_world es) e"
  by (simp add: encodable_def year_in_range_def sample_world_def)

lemma update_loop_absent:
  "eid \<notin> ID ` set es \<Longrightarrow> update_loop eid f es w = (es, False, w)"
  by (induction es) auto

lemma Load_sample_world: "LoadScheduledEmails (sample_world es) = Inr es"
  by (simp add: LoadScheduledEmails_def getScheduledPath_def GetConfigDir_def sample_world_def
      list_all_iff encodable_def year_in_range_def)

lemma writable_sample_world: "writable (sample_world es)"
  by (simp add: writable_def EnsureConfigDir_def GetTokensDir_def GetConfigDir_def sample_world_def)

lemma decimal_100: "decimal 100 = ''100''"
  by (simp add: decimal.simps digit_def char_of_def bit_Suc_0_iff)

lemma UnixNano_in_range: "- (2 ^ 63) \<le> t \<Longrightarrow> t < 2 ^ 63 \<Longrightarrow> UnixNano t = t"
  by (simp add: UnixNano_def)

lemma UnixNano_100: "UnixNano 100 = 100"
  by (simp add: UnixNano_def)

lemma decimal_101: "decimal 101 = ''101''"
  by (simp add: decimal.simps digit_def char_of_def bit_Suc_0_iff)

lemma UnixNano_101: "UnixNano 101 = 101"
  by (simp add: UnixNano_def)

lemma of_char_digit: "d < 10 \<Longrightarrow> of_char (digit d) = 48 + d"
  by (simp add: digit_def)

lemma undecimal_decimal: "undecimal (decimal n) = n"
proof (induction n rule: decimal.induct)
  case (1 n)
  show ?case
  proof (cases "n < 10")
    case True
    then show ?thesis
      by (subst decimal.simps) (simp add: undecimal_def of_char_digit)
  next
    case False
    with 1 have "undecimal (decimal (n div 10)) = n div 10" by simp
    with False show ?thesis
      by (subst decimal.simps) (simp add: undecimal_def of_char_digit)
  qed
qed

lemma decimal_inj: "decimal m = decimal n \<Longrightarrow> m = n"
  by (metis undecimal_decimal)

lemma hd_decimal: "hd (decimal n) \<noteq> CHR ''-''"
proof (induction n rule: decimal.induct)
  case (1 n)
  have ne: "decimal k \<noteq> []" for k
    by (subst decimal.simps) simp
  show ?case
  proof (cases "n < 10")
    case True
    then have "of_char (digit n) \<noteq> (of_char CHR ''-'' :: nat)"
      by (simp add: of_char_digit)
    then have "digit n \<noteq> CHR ''-''" by metis
    with True show ?thesis
      by (subst decimal.simps) simp
  next
    case False
    with 1 show ?thesis
      by (subst decimal.simps) (simp add: ne)
  qed
qed

lemma Sprintf_d_inj: "Sprintf_d a = Sprintf_d b \<Longrightarrow> a = b"
proof -
  assume eq: "Sprintf_d a = Sprintf_d b"
  have ne: "decimal k \<noteq> []" for k
    by (subst decimal.simps) simp
  have neq: "CHR ''-'' # xs \<noteq> decimal k" for xs k
    using hd_decimal [of k] by (metis list.sel(1))
  show "a = b"
  proof (cases "a < 0"; cases "b < 0")
    assume "a < 0" "b < 0"
    with eq have "nat (- a) = nat (- b)" by (simp add: Sprintf_d_def decimal_inj)
    with \<open>a < 0\<close> \<open>b < 0\<close> show ?thesis by simp
  next
    assume "a < 0" "\<not> b < 0"
    with eq neq show ?thesis by (simp add: Sprintf_d_def)
  next
    assume "\<not> a < 0" "b < 0"
    with eq neq [of "decimal (nat (- b))" "nat a"] show ?thesis by (simp add: Sprintf_d_def)
  next
    assume "\<not> a < 0" "\<not> b < 0"
    with eq have "nat a = nat b" by (simp add: Sprintf_d_def decimal_inj)
    with \<open>\<not> a < 0\<close> \<open>\<not> b < 0\<close> show ?thesis by simp
  qed
qed


lemma GetAccount_text: "GetAccount c n = Inl t \<Longrightarrow> hd t \<noteq> CHR ''s'' \<and> t \<noteq> []"
  by (auto simp: GetAccount_def Let_def split: if_splits option.splits)

lemma NewClient_text: "NewClient env n a = Inl t \<Longrightarrow> hd t \<noteq> CHR ''s'' \<and> t \<noteq> []"
  by (auto simp: NewClient_def split: option.splits)

lemma CreateDraft_text: "CreateDraft env c d w = (Inl t, w') \<Longrightarrow> hd t \<noteq> CHR ''s''"
  by (auto simp: CreateDraft_def split: sum.splits)

lemma parse_sample0: "parseDateTime sample_env ''1970-01-01T00:00:00Z'' = Inr 0"
  by (simp add: parseDateTime_def sample_env_def local_layouts_def)

lemma parse_sample100: "parseDateTime sample_env ''1970-01-01T00:00:00.0000001Z'' = Inr 100"
  by (simp add: parseDateTime_def sample_env_def local_layouts_def)

section \<open>Facts about the dispatcher\<close>

lemmas samples = sample_due_def sample_sent_def sample_failed_def sample_now_def sample_sent_personal_def blank_def

lemmas more_samples = sample_no_token_def sample_bad_draft_def sample_store_def sample_store_after_def

lemmas store_defs = encodable_def year_in_range_def LoadScheduledEmails_def getScheduledPath_def GetConfigDir_def
  SaveScheduledEmails_def EnsureConfigDir_def GetTokensDir_def GetPendingScheduledEmails_def
  UpdateScheduledEmail_def MarkScheduledEmailSent_def MarkScheduledEmailError_def time_Now_def

lemmas command_defs = mailScheduledSendCmd_def Load_def GetConfigPath_def GetAccount_def
  NewClient_def SendDraft_def

lemma sample_first_run:
  "mailScheduledSendCmd sample_env [] False (frozen_world sample_store) =
     (Inr (Summary 1 2),
      (frozen_world sample_store_after)\<lparr>tick := 2, outbox := [(''work'', ''d1''), (''work'', ''d-bad'')]\<rparr>)"
  by (simp add: command_defs store_defs frozen_world_def sample_world_def sample_env_def
      sample_config_def sample_account_def more_samples samples)

lemma writable_frame [simp]:
  "writable (w\<lparr>tick := n\<rparr>) = writable w"
  "writable (w\<lparr>disk := d\<rparr>) = writable w"
  "writable (w\<lparr>outbox := ob\<rparr>) = writable w"
  "writable (w\<lparr>drafts := ds\<rparr>) = writable w"
  by (simp_all add: writable_def EnsureConfigDir_def GetConfigDir_def GetTokensDir_def
      split: sum.splits option.splits)

lemma Load_frame [simp]:
  "LoadScheduledEmails (w\<lparr>tick := n\<rparr>) = LoadScheduledEmails w"
  "LoadScheduledEmails (w\<lparr>outbox := ob\<rparr>) = LoadScheduledEmails w"
  "LoadScheduledEmails (w\<lparr>drafts := ds\<rparr>) = LoadScheduledEmails w"
  by (simp_all add: LoadScheduledEmails_def getScheduledPath_def GetConfigDir_def
      split: sum.splits disk.splits)

lemma Load_after_write:
  "writable w \<Longrightarrow> list_all (encodable w) xs \<Longrightarrow>
   LoadScheduledEmails (w\<lparr>disk := Stored xs\<rparr>) = Inr xs"
  by (auto simp: writable_def LoadScheduledEmails_def getScheduledPath_def EnsureConfigDir_def
      GetConfigDir_def split: sum.splits)

lemma config_Load_frame [simp]:
  "Load env (w\<lparr>tick := n\<rparr>) = Load env w"
  by (simp add: Load_def GetConfigPath_def GetConfigDir_def split: sum.splits)

lemma Save_frame:
  "SaveScheduledEmails xs w = (r, w') \<Longrightarrow>
     outbox w' = outbox w \<and> drafts w' = drafts w \<and> tick w' = tick w \<and> clock w' = clock w"
  by (auto simp: SaveScheduledEmails_def split: option.splits sum.splits if_splits)

lemma update_loop_Error_world:
  "update_loop eid (\<lambda>e w0. (e\<lparr>Error := m\<rparr>, w0)) cur w = (xs, b, w') \<Longrightarrow> w' = w"
  by (induction cur arbitrary: xs b) (auto split: if_splits prod.splits)

lemma update_loop_Sent_world:
  "update_loop eid (\<lambda>e w0. let (now, w1) = time_Now w0 in (e\<lparr>Sent := True, SentAt := now\<rparr>, w1)) cur w
     = (xs, b, w') \<Longrightarrow> w' = w \<or> w' = w\<lparr>tick := Suc (tick w)\<rparr>"
  by (induction cur arbitrary: xs b) (auto simp: time_Now_def split: if_splits prod.splits)

lemma MarkError_frame:
  assumes "MarkScheduledEmailError eid m w = (r, w')"
  shows "outbox w' = outbox w \<and> drafts w' = drafts w \<and> clock w' = clock w"
proof -
  show ?thesis
  proof (cases "LoadScheduledEmails w")
    case (Inl t)
    with assms show ?thesis
      by (simp add: MarkScheduledEmailError_def UpdateScheduledEmail_def)
  next
    case (Inr cur)
    obtain xs b w1 where u: "update_loop eid (\<lambda>e w0. (e\<lparr>Error := m\<rparr>, w0)) cur w = (xs, b, w1)"
      by (metis prod_cases3)
    then have w1: "w1 = w" by (rule update_loop_Error_world)
    show ?thesis
    proof (cases b)
      case True
      with assms Inr u w1 have "SaveScheduledEmails xs w = (r, w')"
        by (simp add: MarkScheduledEmailError_def UpdateScheduledEmail_def)
      then show ?thesis using Save_frame by blast
    next
      case False
      with assms Inr u w1 show ?thesis
        by (simp add: MarkScheduledEmailError_def UpdateScheduledEmail_def)
    qed
  qed
qed

lemma MarkSent_frame:
  assumes "MarkScheduledEmailSent eid m w = (r, w')"
  shows "outbox w' = outbox w \<and> drafts w' = drafts w \<and> clock w' = clock w"
proof -
  let ?f = "\<lambda>e w0. let (now, w1) = time_Now w0 in (e\<lparr>Sent := True, SentAt := now\<rparr>, w1)"
  show ?thesis
  proof (cases "LoadScheduledEmails w")
    case (Inl t)
    with assms show ?thesis
      by (simp add: MarkScheduledEmailSent_def UpdateScheduledEmail_def)
  next
    case (Inr cur)
    obtain xs b w1 where u: "update_loop eid ?f cur w = (xs, b, w1)"
      by (metis prod_cases3)
    then have w1: "w1 = w \<or> w1 = w\<lparr>tick := Suc (tick w)\<rparr>" by (rule update_loop_Sent_world)
    show ?thesis
    proof (cases b)
      case True
      with assms Inr u have "SaveScheduledEmails xs w1 = (r, w')"
        by (simp add: MarkScheduledEmailSent_def UpdateScheduledEmail_def)
      then have "outbox w' = outbox w1 \<and> drafts w' = drafts w1 \<and> clock w' = clock w1"
        using Save_frame by blast
      with w1 show ?thesis by auto
    next
      case False
      with assms Inr u have "w' = w1"
        by (simp add: MarkScheduledEmailSent_def UpdateScheduledEmail_def)
      with w1 show ?thesis by auto
    qed
  qed
qed

lemma SendDraft_eq:
  "SendDraft env client d w =
     ((case Drafts_Send env client d of Inl t \<Rightarrow> Inl (''failed to send draft: '' @ t) | Inr m \<Rightarrow> Inr m),
      w\<lparr>outbox := outbox w @ [(client, d)]\<rparr>)"
  by (simp add: SendDraft_def split: sum.splits)

lemma NewClient_name: "NewClient env n acc = Inr client \<Longrightarrow> client = n"
  by (auto simp: NewClient_def split: option.splits)

text \<open>One turn of the loop, as a function of the world.\<close>

lemma send_loop_step:
  "send_loop env cfg (e # es) s f w =
     (case outcome env cfg e of
        Inl err \<Rightarrow>
          send_loop env cfg es s (Suc f)
            (snd (MarkScheduledEmailError (ID e) err
               (if reaches_send env cfg e then w\<lparr>outbox := outbox w @ [(Account e, DraftID e)]\<rparr> else w)))
      | Inr m \<Rightarrow>
          send_loop env cfg es (Suc s) f
            (snd (MarkScheduledEmailSent (ID e) m (w\<lparr>outbox := outbox w @ [(Account e, DraftID e)]\<rparr>))))"
proof (cases "GetAccount cfg (Account e)")
  case (Inl err)
  then show ?thesis
    by (simp add: outcome_def reaches_send_def split: prod.splits)
next
  case (Inr na)
  obtain name acc where na: "na = (name, acc)" by (cases na)
  show ?thesis
  proof (cases "NewClient env (Account e) acc")
    case (Inl err)
    with Inr na show ?thesis
      by (simp add: outcome_def reaches_send_def split: prod.splits)
  next
    case cl: (Inr client)
    then have c: "client = Account e" by (rule NewClient_name)
    show ?thesis
      using Inr na cl c
      by (cases "Drafts_Send env (Account e) (DraftID e)")
         (simp_all add: outcome_def reaches_send_def SendDraft_eq split: prod.splits)
  qed
qed

lemma outcome_Inr_reaches: "outcome env cfg e = Inr m \<Longrightarrow> reaches_send env cfg e"
  by (auto simp: outcome_def reaches_send_def split: sum.splits prod.splits)

lemma send_loop_counts:
  "\<exists>w'. send_loop env cfg es s f w =
      (s + length (filter (\<lambda>e. \<not> isl (outcome env cfg e)) es),
       f + length (filter (\<lambda>e. isl (outcome env cfg e)) es), w')
     \<and> outbox w' = outbox w @ map (\<lambda>e. (Account e, DraftID e)) (filter (reaches_send env cfg) es)
     \<and> drafts w' = drafts w \<and> clock w' = clock w"
proof (induction es arbitrary: s f w)
  case Nil
  show ?case by simp
next
  case (Cons e es)
  show ?case
  proof (cases "outcome env cfg e")
    case (Inl err)
    let ?w0 = "if reaches_send env cfg e then w\<lparr>outbox := outbox w @ [(Account e, DraftID e)]\<rparr> else w"
    let ?w1 = "snd (MarkScheduledEmailError (ID e) err ?w0)"
    have fr: "outbox ?w1 = outbox ?w0 \<and> drafts ?w1 = drafts ?w0 \<and> clock ?w1 = clock ?w0"
      using MarkError_frame [of "ID e" err ?w0 "fst (MarkScheduledEmailError (ID e) err ?w0)" ?w1]
      by simp
    from Cons.IH [of s "Suc f" ?w1] fr Inl show ?thesis
      by (auto simp: send_loop_step simp del: send_loop.simps)
  next
    case (Inr m)
    let ?w0 = "w\<lparr>outbox := outbox w @ [(Account e, DraftID e)]\<rparr>"
    let ?w1 = "snd (MarkScheduledEmailSent (ID e) m ?w0)"
    have fr: "outbox ?w1 = outbox ?w0 \<and> drafts ?w1 = drafts ?w0 \<and> clock ?w1 = clock ?w0"
      using MarkSent_frame [of "ID e" m ?w0 "fst (MarkScheduledEmailSent (ID e) m ?w0)" ?w1]
      by simp
    from Cons.IH [of "Suc s" f ?w1] fr Inr outcome_Inr_reaches [OF Inr] show ?thesis
      by (auto simp: send_loop_step simp del: send_loop.simps)
  qed
qed

lemma map_not_found: "eid \<notin> ID ` set rs \<Longrightarrow> map (\<lambda>r. if ID r = eid then g r else r) rs = rs"
  by (induction rs) auto

lemma update_loop_Error_found:
  "eid \<in> ID ` set cur \<Longrightarrow> distinct (map ID cur) \<Longrightarrow>
   update_loop eid (\<lambda>e w0. (e\<lparr>Error := m\<rparr>, w0)) cur w =
     (map (\<lambda>r. if ID r = eid then r\<lparr>Error := m\<rparr> else r) cur, True, w)"
proof (induction cur)
  case Nil
  then show ?case by simp
next
  case (Cons r rs)
  show ?case
  proof (cases "ID r = eid")
    case True
    with Cons.prems have "eid \<notin> ID ` set rs" by auto
    with True show ?thesis by (simp add: map_not_found)
  next
    case False
    with Cons show ?thesis by auto
  qed
qed

lemma update_loop_Sent_found:
  "eid \<in> ID ` set cur \<Longrightarrow> distinct (map ID cur) \<Longrightarrow>
   update_loop eid (\<lambda>e w0. let (now, w1) = time_Now w0 in (e\<lparr>Sent := True, SentAt := now\<rparr>, w1)) cur w =
     (map (\<lambda>r. if ID r = eid then r\<lparr>Sent := True, SentAt := clock w (tick w)\<rparr> else r) cur, True,
      w\<lparr>tick := Suc (tick w)\<rparr>)"
proof (induction cur)
  case Nil
  then show ?case by simp
next
  case (Cons r rs)
  show ?case
  proof (cases "ID r = eid")
    case True
    with Cons.prems have "eid \<notin> ID ` set rs" by auto
    with True show ?thesis by (simp add: map_not_found time_Now_def)
  next
    case False
    with Cons show ?thesis by auto
  qed
qed

lemma MarkError_found:
  assumes "LoadScheduledEmails w = Inr cur" "writable w" "eid \<in> ID ` set cur" "distinct (map ID cur)"
  shows "MarkScheduledEmailError eid m w =
    (None, w\<lparr>disk := Stored (map (\<lambda>r. if ID r = eid then r\<lparr>Error := m\<rparr> else r) cur)\<rparr>)"
proof -
  have "list_all (encodable w) (map (\<lambda>r. if ID r = eid then r\<lparr>Error := m\<rparr> else r) cur)"
    using Loaded_encodable [OF assms(1)] by (auto simp: list_all_iff)
  with assms show ?thesis
    by (simp add: MarkScheduledEmailError_def UpdateScheduledEmail_def update_loop_Error_found Save_writable)
qed

lemma MarkSent_found:
  assumes "LoadScheduledEmails w = Inr cur" "writable w" "eid \<in> ID ` set cur" "distinct (map ID cur)"
    and "year_in_range w (clock w (tick w))"
  shows "MarkScheduledEmailSent eid mid w =
    (None, w\<lparr>tick := Suc (tick w),
             disk := Stored (map (\<lambda>r. if ID r = eid then r\<lparr>Sent := True, SentAt := clock w (tick w)\<rparr> else r) cur)\<rparr>)"
proof -
  have u: "update_loop eid (\<lambda>e w0. case time_Now w0 of (now, w1) \<Rightarrow> (e\<lparr>Sent := True, SentAt := now\<rparr>, w1)) cur w =
     (map (\<lambda>r. if ID r = eid then r\<lparr>Sent := True, SentAt := clock w (tick w)\<rparr> else r) cur, True,
      w\<lparr>tick := Suc (tick w)\<rparr>)"
    using update_loop_Sent_found [OF assms(3,4), of w] by simp
  have "list_all (encodable w)
      (map (\<lambda>r. if ID r = eid then r\<lparr>Sent := True, SentAt := clock w (tick w)\<rparr> else r) cur)"
    using Loaded_encodable [OF assms(1)] assms(5) by (auto simp: list_all_iff encodable_Sent)
  then show ?thesis
    using assms(1,2) by (simp add: MarkScheduledEmailSent_def UpdateScheduledEmail_def u Save_writable)
qed

lemma same_ID_same_record:
  "distinct (map ID cur) \<Longrightarrow> r \<in> set cur \<Longrightarrow> e \<in> set cur \<Longrightarrow> ID r = ID e \<Longrightarrow> r = e"
  by (meson distinct_map inj_onD)

lemma relink:
  assumes fin: "list_all2 (\<lambda>r r'. if r \<in> set es then marked env cfg r r' else r' = r)
                  (map (\<lambda>r. if ID r = ID e then h r else r) cur) fin"
    and h: "ID (h e) = ID e" "marked env cfg e (h e)"
    and d: "distinct (map ID cur)" "distinct (map ID (e # es))" "e \<in> set cur"
  shows "list_all2 (\<lambda>r r'. if r \<in> set (e # es) then marked env cfg r r' else r' = r) cur fin"
proof -
  have notin: "x \<in> set es \<Longrightarrow> ID x \<noteq> ID e" for x
    using d(2) by (auto simp: image_iff)
  from fin have "list_all2 (\<lambda>r r'. if (if ID r = ID e then h r else r) \<in> set es
                        then marked env cfg (if ID r = ID e then h r else r) r'
                        else r' = (if ID r = ID e then h r else r)) cur fin"
    by (simp add: list_all2_map1)
  then show ?thesis
  proof (rule list.rel_mono_strong)
    fix r r'
    assume r: "r \<in> set cur"
      and P: "if (if ID r = ID e then h r else r) \<in> set es
              then marked env cfg (if ID r = ID e then h r else r) r'
              else r' = (if ID r = ID e then h r else r)"
    show "if r \<in> set (e # es) then marked env cfg r r' else r' = r"
    proof (cases "ID r = ID e")
      case True
      with d r have re: "r = e" by (meson same_ID_same_record)
      have "h e \<notin> set es" using notin [of "h e"] h(1) by auto
      with P True re have "r' = h e" by (auto split: if_splits)
      with re h(2) show ?thesis by simp
    next
      case False
      then have "r \<noteq> e" by auto
      with P False show ?thesis by (auto split: if_splits)
    qed
  qed
qed

lemma set_after_mark:
  assumes "set es \<subseteq> set cur" "distinct (map ID (e # es))"
  shows "set es \<subseteq> set (map (\<lambda>r. if ID r = ID e then h r else r) cur)"
proof
  fix x assume x: "x \<in> set es"
  with assms have "x \<in> set cur" "ID x \<noteq> ID e" by (auto simp: image_iff)
  then show "x \<in> set (map (\<lambda>r. if ID r = ID e then h r else r) cur)"
    by (force simp: image_iff)
qed

lemma ids_after_mark:
  "(\<And>r. ID (h r) = ID r) \<Longrightarrow> map (ID \<circ> (\<lambda>r. if ID r = ID e then h r else r)) cur = map ID cur"
  by (induction cur) auto

lemma send_loop_store:
  assumes "writable w" "LoadScheduledEmails w = Inr cur" "distinct (map ID cur)"
    and "set es \<subseteq> set cur" "distinct (map ID es)"
    and "\<forall>n. year_in_range w (clock w n)"
  shows "\<exists>fin. LoadScheduledEmails (snd (snd (send_loop env cfg es s f w))) = Inr fin
      \<and> list_all2 (\<lambda>r r'. if r \<in> set es then marked env cfg r r' else r' = r) cur fin"
  using assms
proof (induction es arbitrary: w cur s f)
  case Nil
  then show ?case by (simp add: list_all2_same)
next
  case (Cons e es)
  have e: "e \<in> set cur" "ID e \<in> ID ` set cur" using Cons.prems(4) by auto
  have des: "distinct (map ID es)" using Cons.prems(5) by simp
  show ?case
  proof (cases "outcome env cfg e")
    case (Inl err)
    let ?w0 = "if reaches_send env cfg e then w\<lparr>outbox := outbox w @ [(Account e, DraftID e)]\<rparr> else w"
    let ?h = "\<lambda>r. r\<lparr>Error := err\<rparr>"
    let ?cur1 = "map (\<lambda>r. if ID r = ID e then ?h r else r) cur"
    have l0: "LoadScheduledEmails ?w0 = Inr cur" and wr0: "writable ?w0"
      using Cons.prems(1,2) by auto
    have m: "MarkScheduledEmailError (ID e) err ?w0 = (None, ?w0\<lparr>disk := Stored ?cur1\<rparr>)"
      using MarkError_found [OF l0 wr0 e(2) Cons.prems(3)] .
    let ?w1 = "?w0\<lparr>disk := Stored ?cur1\<rparr>"
    have wr1: "writable ?w1" using wr0 by simp
    have en0: "encodable ?w0 = encodable w" by simp
    have en1: "list_all (encodable ?w0) ?cur1"
      using Loaded_encodable [OF l0] unfolding en0 by (auto simp: list_all_iff)
    have l1: "LoadScheduledEmails ?w1 = Inr ?cur1" using wr0 en1 by (rule Load_after_write)
    have d1: "distinct (map ID ?cur1)" using Cons.prems(3) by (simp add: ids_after_mark)
    have s1: "set es \<subseteq> set ?cur1" using Cons.prems(4,5) by (intro set_after_mark) auto
    have y1: "\<forall>n. year_in_range ?w1 (clock ?w1 n)" using Cons.prems(6) by auto
    from Cons.IH [OF wr1 l1 d1 s1 des y1, of s "Suc f"] obtain fin where
      fin: "LoadScheduledEmails (snd (snd (send_loop env cfg es s (Suc f) ?w1))) = Inr fin"
        "list_all2 (\<lambda>r r'. if r \<in> set es then marked env cfg r r' else r' = r) ?cur1 fin"
      by blast
    have mk: "marked env cfg e (?h e)" using Inl by (simp add: marked_def)
    have "list_all2 (\<lambda>r r'. if r \<in> set (e # es) then marked env cfg r r' else r' = r) cur fin"
      using relink [OF fin(2) _ mk Cons.prems(3) Cons.prems(5) e(1)] by simp
    moreover have "send_loop env cfg (e # es) s f w = send_loop env cfg es s (Suc f) ?w1"
      using Inl m by (simp add: send_loop_step del: send_loop.simps)
    ultimately show ?thesis using fin(1) by auto
  next
    case (Inr mid)
    let ?w0 = "w\<lparr>outbox := outbox w @ [(Account e, DraftID e)]\<rparr>"
    let ?h = "\<lambda>r. r\<lparr>Sent := True, SentAt := clock ?w0 (tick ?w0)\<rparr>"
    let ?cur1 = "map (\<lambda>r. if ID r = ID e then ?h r else r) cur"
    have l0: "LoadScheduledEmails ?w0 = Inr cur" and wr0: "writable ?w0"
      using Cons.prems(1,2) by auto
    let ?w1 = "?w0\<lparr>tick := Suc (tick ?w0), disk := Stored ?cur1\<rparr>"
    have y0: "year_in_range ?w0 (clock ?w0 (tick ?w0))" using Cons.prems(6) by simp
    have m: "MarkScheduledEmailSent (ID e) mid ?w0 = (None, ?w1)"
      using MarkSent_found [OF l0 wr0 e(2) Cons.prems(3) y0] .
    have wr1: "writable ?w1" using wr0 by simp
    have en1: "list_all (encodable ?w0) ?cur1"
      using Loaded_encodable [OF l0] y0 by (auto simp: list_all_iff encodable_Sent)
    have l1: "LoadScheduledEmails ?w1 = Inr ?cur1"
      using Load_after_write [of "?w0\<lparr>tick := Suc (tick ?w0)\<rparr>" ?cur1] wr0 en1 by simp
    have d1: "distinct (map ID ?cur1)" using Cons.prems(3) by (simp add: ids_after_mark)
    have s1: "set es \<subseteq> set ?cur1" using Cons.prems(4,5) by (intro set_after_mark) auto
    have y1: "\<forall>n. year_in_range ?w1 (clock ?w1 n)" using Cons.prems(6) by simp
    from Cons.IH [OF wr1 l1 d1 s1 des y1, of "Suc s" f] obtain fin where
      fin: "LoadScheduledEmails (snd (snd (send_loop env cfg es (Suc s) f ?w1))) = Inr fin"
        "list_all2 (\<lambda>r r'. if r \<in> set es then marked env cfg r r' else r' = r) ?cur1 fin"
      by blast
    have mk: "marked env cfg e (?h e)" using Inr by (simp add: marked_def)
    have "list_all2 (\<lambda>r r'. if r \<in> set (e # es) then marked env cfg r r' else r' = r) cur fin"
      using relink [OF fin(2) _ mk Cons.prems(3) Cons.prems(5) e(1)] by simp
    moreover have "send_loop env cfg (e # es) s f w = send_loop env cfg es (Suc s) f ?w1"
      using Inr m by (simp add: send_loop_step del: send_loop.simps)
    ultimately show ?thesis using fin(1) by auto
  qed
qed

lemma outcome_text: "outcome env cfg e = Inl t \<Longrightarrow> t \<noteq> []"
  by (auto simp: outcome_def dest: GetAccount_text NewClient_text split: sum.splits prod.splits)

lemma marked_not_due: "marked env cfg e r \<Longrightarrow> \<not> due a now r"
proof (cases "outcome env cfg e")
  case (Inl t)
  assume "marked env cfg e r"
  with Inl have "Error r = t" by (simp add: marked_def)
  with outcome_text [OF Inl] show ?thesis by (simp add: due_def)
next
  case (Inr m)
  assume "marked env cfg e r"
  with Inr have "r\<lparr>SentAt := SentAt e\<rparr> = e\<lparr>Sent := True\<rparr>" by (simp add: marked_def)
  then have "Sent (r\<lparr>SentAt := SentAt e\<rparr>) = Sent (e\<lparr>Sent := True\<rparr>)" by (rule arg_cong)
  then show ?thesis by (simp add: due_def)
qed

lemma due_mono: "due a now2 e \<Longrightarrow> now2 \<le> now1 \<Longrightarrow> due a now1 e"
  by (auto simp: due_def)

lemma GetPending_due:
  "LoadScheduledEmails w = Inr emails \<Longrightarrow>
   GetPendingScheduledEmails a w = (Inr (filter (due a (clock w (tick w))) emails), w\<lparr>tick := Suc (tick w)\<rparr>)"
  by (simp add: GetPendingScheduledEmails_def time_Now_def pending_loop_filter due_def [abs_def])

lemma cmd_run:
  assumes "LoadScheduledEmails w = Inr emails" and "Load env w = Inr cfg"
    and "filter (due a (clock w (tick w))) emails \<noteq> []"
  shows "mailScheduledSendCmd env a False w =
    (Inr (Summary (fst (send_loop env cfg (filter (due a (clock w (tick w))) emails) 0 0 (w\<lparr>tick := Suc (tick w)\<rparr>)))
                  (fst (snd (send_loop env cfg (filter (due a (clock w (tick w))) emails) 0 0 (w\<lparr>tick := Suc (tick w)\<rparr>))))),
     snd (snd (send_loop env cfg (filter (due a (clock w (tick w))) emails) 0 0 (w\<lparr>tick := Suc (tick w)\<rparr>))))"
  using assms
  by (simp add: mailScheduledSendCmd_def GetPending_due split: prod.splits)

lemma store_after_run:
  assumes "LoadScheduledEmails w = Inr emails" "writable w" "distinct (map ID emails)"
    and "\<forall>n. year_in_range w (clock w n)"
  shows "\<exists>fin. LoadScheduledEmails (snd (snd (send_loop env cfg (filter (due a now) emails) s f (w\<lparr>tick := n\<rparr>)))) = Inr fin
      \<and> list_all2 (\<lambda>e r. if due a now e then marked env cfg e r else r = e) emails fin"
proof -
  let ?w1 = "w\<lparr>tick := n\<rparr>"
  have "\<exists>fin. LoadScheduledEmails (snd (snd (send_loop env cfg (filter (due a now) emails) s f ?w1))) = Inr fin
      \<and> list_all2 (\<lambda>r r'. if r \<in> set (filter (due a now) emails) then marked env cfg r r' else r' = r) emails fin"
    using assms by (intro send_loop_store) (auto simp: distinct_map_filter)
  then obtain fin where
    fin: "LoadScheduledEmails (snd (snd (send_loop env cfg (filter (due a now) emails) s f ?w1))) = Inr fin"
      "list_all2 (\<lambda>r r'. if r \<in> set (filter (due a now) emails) then marked env cfg r r' else r' = r) emails fin"
    by blast
  from fin(2) have "list_all2 (\<lambda>e r. if due a now e then marked env cfg e r else r = e) emails fin"
    by (rule list.rel_mono_strong) (auto split: if_splits)
  with fin(1) show ?thesis by blast
qed

lemma run_effects:
  assumes "LoadScheduledEmails w = Inr emails" and "Load env w = Inr cfg"
    and "pending = filter (due a (clock w (tick w))) emails" and "pending \<noteq> []"
  shows "\<exists>w'. mailScheduledSendCmd env a False w =
           (Inr (Summary (length (filter (\<lambda>e. \<not> isl (outcome env cfg e)) pending))
                         (length (filter (\<lambda>e. isl (outcome env cfg e)) pending))), w')
    \<and> outbox w' = outbox w @ map (\<lambda>e. (Account e, DraftID e)) (filter (reaches_send env cfg) pending)
    \<and> clock w' = clock w
    \<and> (writable w \<and> distinct (map ID emails) \<and> (\<forall>n. year_in_range w (clock w n)) \<longrightarrow>
         (\<exists>fin. LoadScheduledEmails w' = Inr fin
            \<and> list_all2 (\<lambda>e r. if due a (clock w (tick w)) e then marked env cfg e r else r = e) emails fin))"
proof -
  let ?w1 = "w\<lparr>tick := Suc (tick w)\<rparr>"
  have ne: "filter (due a (clock w (tick w))) emails \<noteq> []"
    using assms(3,4) by simp
  note run = cmd_run [OF assms(1,2) ne, folded assms(3)]
  from send_loop_counts [of env cfg pending 0 0 ?w1] obtain w2 where
    w2: "send_loop env cfg pending 0 0 ?w1 =
          (length (filter (\<lambda>e. \<not> isl (outcome env cfg e)) pending),
           length (filter (\<lambda>e. isl (outcome env cfg e)) pending), w2)"
        "outbox w2 = outbox ?w1 @ map (\<lambda>e. (Account e, DraftID e)) (filter (reaches_send env cfg) pending)"
        "clock w2 = clock ?w1"
    by auto
  have a: "mailScheduledSendCmd env a False w =
           (Inr (Summary (length (filter (\<lambda>e. \<not> isl (outcome env cfg e)) pending))
                         (length (filter (\<lambda>e. isl (outcome env cfg e)) pending))), w2)"
    using run w2(1) by simp
  have d: "\<exists>fin. LoadScheduledEmails w2 = Inr fin
            \<and> list_all2 (\<lambda>e r. if due a (clock w (tick w)) e then marked env cfg e r else r = e) emails fin"
    if "writable w \<and> distinct (map ID emails) \<and> (\<forall>n. year_in_range w (clock w n))"
    using store_after_run [OF assms(1), of env cfg a "clock w (tick w)" 0 0 "Suc (tick w)"] that w2(1)
    by (simp add: assms(3))
  from a w2(2,3) d show ?thesis by auto
qed

lemma year_in_range_frozen_world [simp]: "year_in_range (frozen_world es) t"
  by (simp add: year_in_range_def frozen_world_def sample_world_def)

lemma encodable_frozen_world [simp]: "encodable (frozen_world es) e"
  by (simp add: encodable_def)

lemma Load_frozen_world: "LoadScheduledEmails (frozen_world es) = Inr es"
proof -
  have "list_all (encodable (frozen_world es)) es"
    by (simp add: list_all_iff)
  then show ?thesis
    by (simp add: LoadScheduledEmails_def getScheduledPath_def GetConfigDir_def frozen_world_def
        sample_world_def)
qed

lemma writable_frozen_world: "writable (frozen_world es)"
  by (simp add: writable_def EnsureConfigDir_def GetTokensDir_def GetConfigDir_def frozen_world_def sample_world_def)

lemma distinct_sample_store: "distinct (map ID sample_store)"
  by (simp add: more_samples samples)

lemma sample_outcomes:
  "outcome sample_env sample_config sample_due = Inr ''m-d1''"
  "outcome sample_env sample_config sample_no_token = Inl ''failed to get authenticated client: token expired''"
  "outcome sample_env sample_config sample_bad_draft = Inl ''failed to send draft: no such draft''"
  "reaches_send sample_env sample_config sample_due"
  "\<not> reaches_send sample_env sample_config sample_no_token"
  "reaches_send sample_env sample_config sample_bad_draft"
  by (simp_all add: outcome_def reaches_send_def GetAccount_def NewClient_def sample_env_def
      sample_config_def more_samples samples)

lemma sample_pending: "filter (due [] 100) sample_store = [sample_due, sample_no_token, sample_bad_draft]"
  by (simp add: due_def more_samples samples)

lemma second_run_nothing:
  assumes "LoadScheduledEmails w' = Inr fin" and "\<forall>r\<in>set fin. \<not> due a (clock w' (tick w')) r"
  shows "mailScheduledSendCmd env a dryRun w' = (Inr NothingReady, w'\<lparr>tick := Suc (tick w')\<rparr>)"
proof -
  have "filter (due a (clock w' (tick w'))) fin = []"
    using assms(2) by (simp add: filter_empty_conv)
  with assms(1) show ?thesis
    by (simp add: mailScheduledSendCmd_def GetPending_due)
qed

lemma marked_or_kept_not_due:
  assumes "list_all2 (\<lambda>e r. if due a now e then marked env cfg e r else r = e) emails fin"
    and "now2 \<le> now" and "r \<in> set fin"
  shows "\<not> due a now2 r"
proof -
  from assms(3) obtain i where i: "i < length fin" "r = fin ! i"
    by (auto simp: in_set_conv_nth)
  with assms(1) have P: "if due a now (emails ! i) then marked env cfg (emails ! i) r else r = emails ! i"
    by (auto dest: list_all2_nthD2)
  show ?thesis
  proof (cases "due a now (emails ! i)")
    case True
    with P show ?thesis by (simp add: marked_not_due)
  next
    case False
    with P have "r = emails ! i" by simp
    with False assms(2) show ?thesis by (auto dest: due_mono)
  qed
qed

lemma update_loop_Sent_pointwise:
  "update_loop eid (\<lambda>e w0. let (now, w1) = time_Now w0 in (e\<lparr>Sent := True, SentAt := now\<rparr>, w1)) cur w
     = (xs, b, w') \<Longrightarrow>
   list_all2 (\<lambda>e r. r = e \<or> r = e\<lparr>Sent := True, SentAt := clock w (tick w)\<rparr>) cur xs"
proof (induction cur arbitrary: xs b w')
  case Nil
  then show ?case by simp
next
  case (Cons e es)
  show ?case
  proof (cases "ID e = eid")
    case True
    with Cons.prems show ?thesis
      by (auto simp: time_Now_def list_all2_same)
  next
    case False
    with Cons.prems obtain es' where "xs = e # es'"
      "update_loop eid (\<lambda>e w0. let (now, w1) = time_Now w0 in (e\<lparr>Sent := True, SentAt := now\<rparr>, w1)) es w
        = (es', b, w')"
      by (auto split: prod.splits)
    with Cons.IH show ?thesis by auto
  qed
qed

lemma Load_after_Save:
  assumes "LoadScheduledEmails w = Inr emails" and "SaveScheduledEmails xs w = (r, w')"
  shows "LoadScheduledEmails w' = Inr emails \<or> LoadScheduledEmails w' = Inr xs"
  using assms
  by (auto simp: SaveScheduledEmails_def LoadScheduledEmails_def getScheduledPath_def GetConfigDir_def
      split: option.splits sum.splits if_splits disk.splits)

text \<open>
  On a store that can be written and whose ids are distinct, with a clock whose readings
  can be encoded, a run that is not a dry run leaves every due record marked with its
  own outcome and every other record unchanged, and the next run finds nothing ready.
\<close>

lemma dispatch_marks:
  assumes "LoadScheduledEmails w = Inr emails" and "time_Now w = (now, w1)"
    and "Load env w1 = Inr cfg"
    and "pending = filter (due accountName now) emails" and "pending \<noteq> []"
  shows "fst (mailScheduledSendCmd env accountName False w) =
           Inr (Summary (length (filter (\<lambda>e. \<not> isl (outcome env cfg e)) pending))
                        (length (filter (\<lambda>e. isl (outcome env cfg e)) pending)))
    \<and> length (filter (\<lambda>e. \<not> isl (outcome env cfg e)) pending)
        + length (filter (\<lambda>e. isl (outcome env cfg e)) pending) = length pending
    \<and> outbox (snd (mailScheduledSendCmd env accountName False w)) =
        outbox w @ map (\<lambda>e. (Account e, DraftID e)) (filter (reaches_send env cfg) pending)
    \<and> (writable w \<and> distinct (map ID emails) \<and> (\<forall>n. year_in_range w (clock w n)) \<longrightarrow>
         (\<exists>fin. LoadScheduledEmails (snd (mailScheduledSendCmd env accountName False w)) = Inr fin
            \<and> list_all2 (\<lambda>e r. if due accountName now e then marked env cfg e r else r = e) emails fin))"
proof -
  from assms(2) have now: "now = clock w (tick w)" and w1: "w1 = w\<lparr>tick := Suc (tick w)\<rparr>"
    by (auto simp: time_Now_def)
  from assms(3) w1 have cfg: "Load env w = Inr cfg" by simp
  have b: "length (filter (\<lambda>e. \<not> isl (outcome env cfg e)) pending)
        + length (filter (\<lambda>e. isl (outcome env cfg e)) pending) = length pending"
    using sum_length_filter_compl [of "\<lambda>e. isl (outcome env cfg e)" pending] by simp
  from run_effects [OF assms(1) cfg assms(4) [unfolded now] assms(5)] obtain w' where
    r: "mailScheduledSendCmd env accountName False w =
           (Inr (Summary (length (filter (\<lambda>e. \<not> isl (outcome env cfg e)) pending))
                         (length (filter (\<lambda>e. isl (outcome env cfg e)) pending))), w')"
    and ob: "outbox w' = outbox w @ map (\<lambda>e. (Account e, DraftID e)) (filter (reaches_send env cfg) pending)"
    and st: "writable w \<and> distinct (map ID emails) \<and> (\<forall>n. year_in_range w (clock w n)) \<longrightarrow>
         (\<exists>fin. LoadScheduledEmails w' = Inr fin
            \<and> list_all2 (\<lambda>e r. if due accountName (clock w (tick w)) e then marked env cfg e r else r = e) emails fin)"
    by blast
  show ?thesis
    unfolding r fst_conv snd_conv now
    by (intro conjI refl b ob st)
qed

lemma dispatch_marks_sample:
  "LoadScheduledEmails (frozen_world sample_store) = Inr sample_store \<and>
   time_Now (frozen_world sample_store) = (100, (frozen_world sample_store)\<lparr>tick := 1\<rparr>) \<and>
   Load sample_env ((frozen_world sample_store)\<lparr>tick := 1\<rparr>) = Inr sample_config \<and>
   [sample_due, sample_no_token, sample_bad_draft] = filter (due [] 100) sample_store \<and>
   writable (frozen_world sample_store) \<and> distinct (map ID sample_store) \<and>
   fst (mailScheduledSendCmd sample_env [] False (frozen_world sample_store)) = Inr (Summary 1 2) \<and>
   outbox (snd (mailScheduledSendCmd sample_env [] False (frozen_world sample_store))) =
     [(''work'', ''d1''), (''work'', ''d-bad'')] \<and>
   (\<exists>fin. LoadScheduledEmails (snd (mailScheduledSendCmd sample_env [] False (frozen_world sample_store))) = Inr fin
      \<and> list_all2 (\<lambda>e r. if due [] 100 e then marked sample_env sample_config e r else r = e) sample_store fin) \<and>
   LoadScheduledEmails (snd (mailScheduledSendCmd sample_env [] False (frozen_world sample_store))) =
     Inr sample_store_after"
proof -
  let ?w = "frozen_world sample_store"
  let ?p = "[sample_due, sample_no_token, sample_bad_draft]"
  have l: "LoadScheduledEmails ?w = Inr sample_store" by (rule Load_frozen_world)
  have t: "time_Now ?w = (100, ?w\<lparr>tick := 1\<rparr>)"
    by (simp add: time_Now_def frozen_world_def sample_world_def)
  have c: "Load sample_env (?w\<lparr>tick := 1\<rparr>) = Inr sample_config"
    by (simp add: Load_def GetConfigPath_def GetConfigDir_def frozen_world_def sample_world_def sample_env_def)
  have p: "?p = filter (due [] 100) sample_store" by (simp add: sample_pending)
  have ne: "?p \<noteq> []" by simp
  have wr: "writable ?w" by (rule writable_frozen_world)
  have d: "distinct (map ID sample_store)" by (rule distinct_sample_store)
  have ob: "outbox ?w = []" by (simp add: frozen_world_def sample_world_def)
  have after: "LoadScheduledEmails (snd (mailScheduledSendCmd sample_env [] False ?w)) = Inr sample_store_after"
    by (simp add: sample_first_run Load_frozen_world)
  note th = dispatch_marks [OF l t c p ne]
  have a: "fst (mailScheduledSendCmd sample_env [] False ?w) = Inr (Summary 1 2)"
    using th by (simp add: sample_outcomes)
  have "outbox (snd (mailScheduledSendCmd sample_env [] False ?w)) =
      outbox ?w @ map (\<lambda>e. (Account e, DraftID e)) [sample_due, sample_bad_draft]"
    using th by (simp add: sample_outcomes)
  then have b: "outbox (snd (mailScheduledSendCmd sample_env [] False ?w)) = [(''work'', ''d1''), (''work'', ''d-bad'')]"
    using ob by (simp add: more_samples samples)
  have e: "\<exists>fin. LoadScheduledEmails (snd (mailScheduledSendCmd sample_env [] False ?w)) = Inr fin
      \<and> list_all2 (\<lambda>e r. if due [] 100 e then marked sample_env sample_config e r else r = e) sample_store fin"
    using th wr d by simp
  from l t c p wr d a b e after show ?thesis by blast
qed

lemma rerun_finds_nothing:
  assumes "LoadScheduledEmails w = Inr emails" and "writable w" and "distinct (map ID emails)"
    and "mailScheduledSendCmd env accountName False w = (Inr rep, w')"
    and "clock w' (tick w') \<le> clock w (tick w)"
    and "\<forall>n. year_in_range w (clock w n)"
  shows "mailScheduledSendCmd env accountName dryRun w' = (Inr NothingReady, w'\<lparr>tick := Suc (tick w')\<rparr>)
    \<and> (\<exists>sent. outbox w' = outbox w @ map (\<lambda>e. (Account e, DraftID e)) sent
          \<and> distinct sent \<and> set sent \<subseteq> set emails)"
proof -
  let ?now = "clock w (tick w)"
  let ?w1 = "w\<lparr>tick := Suc (tick w)\<rparr>"
  let ?pending = "filter (due accountName ?now) emails"
  have gp: "GetPendingScheduledEmails accountName w = (Inr ?pending, ?w1)"
    using assms(1) by (rule GetPending_due)
  have de: "distinct emails" using assms(3) by (simp add: distinct_map)
  show ?thesis
  proof (cases "?pending = []")
    case True
    with assms(4) gp have w': "w' = ?w1" by (simp add: mailScheduledSendCmd_def)
    have l: "LoadScheduledEmails w' = Inr emails" using assms(1) w' by simp
    have "\<forall>r\<in>set emails. \<not> due accountName (clock w' (tick w')) r"
      using True assms(5) by (auto simp: filter_empty_conv dest: due_mono)
    with l have "mailScheduledSendCmd env accountName dryRun w' = (Inr NothingReady, w'\<lparr>tick := Suc (tick w')\<rparr>)"
      by (rule second_run_nothing)
    moreover have "outbox w' = outbox w @ map (\<lambda>e. (Account e, DraftID e)) [] \<and> distinct ([]::ScheduledEmailData list)
        \<and> set [] \<subseteq> set emails"
      using w' by simp
    ultimately show ?thesis by blast
  next
    case False
    show ?thesis
    proof (cases "Load env w")
      case (Inl t)
      with assms(4) gp False show ?thesis by (simp add: mailScheduledSendCmd_def)
    next
      case (Inr cfg)
      from run_effects [OF assms(1) Inr refl False] assms(2,3,4,6) obtain fin where
        ob: "outbox w' = outbox w @ map (\<lambda>e. (Account e, DraftID e)) (filter (reaches_send env cfg) ?pending)"
        and l: "LoadScheduledEmails w' = Inr fin"
        and m: "list_all2 (\<lambda>e r. if due accountName ?now e then marked env cfg e r else r = e) emails fin"
        by auto
      have "\<forall>r\<in>set fin. \<not> due accountName (clock w' (tick w')) r"
        using marked_or_kept_not_due [OF m assms(5)] by blast
      with l have "mailScheduledSendCmd env accountName dryRun w' = (Inr NothingReady, w'\<lparr>tick := Suc (tick w')\<rparr>)"
        by (rule second_run_nothing)
      moreover have "distinct (filter (reaches_send env cfg) ?pending)
          \<and> set (filter (reaches_send env cfg) ?pending) \<subseteq> set emails"
        using de by auto
      ultimately show ?thesis using ob by blast
    qed
  qed
qed

lemma rerun_finds_nothing_sample:
  "LoadScheduledEmails (frozen_world sample_store) = Inr sample_store \<and>
   writable (frozen_world sample_store) \<and> distinct (map ID sample_store) \<and>
   mailScheduledSendCmd sample_env [] False (frozen_world sample_store) =
     (Inr (Summary 1 2),
      (frozen_world sample_store_after)\<lparr>tick := 2, outbox := [(''work'', ''d1''), (''work'', ''d-bad'')]\<rparr>) \<and>
   mailScheduledSendCmd sample_env [] False
      ((frozen_world sample_store_after)\<lparr>tick := 2, outbox := [(''work'', ''d1''), (''work'', ''d-bad'')]\<rparr>) =
     (Inr NothingReady,
      (frozen_world sample_store_after)\<lparr>tick := 3, outbox := [(''work'', ''d1''), (''work'', ''d-bad'')]\<rparr>)"
proof -
  let ?w = "frozen_world sample_store"
  let ?w' = "(frozen_world sample_store_after)\<lparr>tick := 2, outbox := [(''work'', ''d1''), (''work'', ''d-bad'')]\<rparr>"
  have l: "LoadScheduledEmails ?w = Inr sample_store" by (rule Load_frozen_world)
  have wr: "writable ?w" by (rule writable_frozen_world)
  have d: "distinct (map ID sample_store)" by (rule distinct_sample_store)
  have r: "mailScheduledSendCmd sample_env [] False ?w = (Inr (Summary 1 2), ?w')" by (rule sample_first_run)
  have c: "clock ?w' (tick ?w') \<le> clock ?w (tick ?w)"
    by (simp add: frozen_world_def sample_world_def)
  have y: "\<forall>n. year_in_range ?w (clock ?w n)"
    by simp
  show ?thesis
    using rerun_finds_nothing [OF l wr d r c y, of False] l wr d r
    by (simp add: frozen_world_def sample_world_def)
qed

text \<open>
  A dry run leaves the store as it was, so a run after it at the same clock reading
  finds the record, sends it and reports one email sent.
\<close>

lemma run_after_dry_run:
  "mailScheduledSendCmd sample_env [] True (frozen_world [sample_due]) =
     (Inr (DryRun [sample_due]), (frozen_world [sample_due])\<lparr>tick := 1\<rparr>) \<and>
   clock ((frozen_world [sample_due])\<lparr>tick := 1\<rparr>) 1 = clock (frozen_world [sample_due]) 0 \<and>
   mailScheduledSendCmd sample_env [] False ((frozen_world [sample_due])\<lparr>tick := 1\<rparr>) =
     (Inr (Summary 1 0),
      (frozen_world [sample_due\<lparr>Sent := True, SentAt := 100\<rparr>])\<lparr>tick := 3, outbox := [(''work'', ''d1'')]\<rparr>)"
  by (simp add: command_defs store_defs frozen_world_def sample_world_def sample_env_def
      sample_config_def sample_account_def samples)

section \<open>Facts about the listings\<close>

lemma swap_settled:
  assumes "settled i xs" "i < j" "j < length xs"
  shows "settled i (xs[i := xs ! j, j := xs ! i])"
  unfolding settled_def
proof (intro allI impI)
  fix a b
  assume ab: "a < b \<and> b < length (xs[i := xs ! j, j := xs ! i]) \<and> a < i"
  then have a: "(xs[i := xs ! j, j := xs ! i]) ! a = xs ! a"
    using assms by simp
  have b: "(xs[i := xs ! j, j := xs ! i]) ! b = xs ! b \<or> (xs[i := xs ! j, j := xs ! i]) ! b = xs ! i
      \<or> (xs[i := xs ! j, j := xs ! i]) ! b = xs ! j"
    using ab assms by (auto simp: nth_list_update)
  have "Start (xs ! a) \<le> Start (xs ! b)" "Start (xs ! a) \<le> Start (xs ! i)" "Start (xs ! a) \<le> Start (xs ! j)"
    using assms ab by (auto simp: settled_def)
  with a b show "Start (xs[i := xs ! j, j := xs ! i] ! a) \<le> Start (xs[i := xs ! j, j := xs ! i] ! b)"
    by auto
qed

lemma swap_least:
  assumes "least_upto i j xs" "i < j" "j < length xs" "Start (xs ! j) < Start (xs ! i)"
  shows "least_upto i (j + 1) (xs[i := xs ! j, j := xs ! i])"
  unfolding least_upto_def
proof (intro allI impI)
  fix k
  assume k: "i < k \<and> k < j + 1 \<and> k < length (xs[i := xs ! j, j := xs ! i])"
  have i: "(xs[i := xs ! j, j := xs ! i]) ! i = xs ! j"
    using assms by simp
  show "Start (xs[i := xs ! j, j := xs ! i] ! i) \<le> Start (xs[i := xs ! j, j := xs ! i] ! k)"
  proof (cases "k = j")
    case True
    with assms i show ?thesis by simp
  next
    case False
    with k have kj: "k < j" by simp
    with k assms have "(xs[i := xs ! j, j := xs ! i]) ! k = xs ! k" by simp
    moreover have "Start (xs ! i) \<le> Start (xs ! k)"
      using assms(1) k kj by (simp add: least_upto_def)
    ultimately show ?thesis using i assms(4) by simp
  qed
qed

lemma keep_least:
  assumes "least_upto i j xs" "\<not> Start (xs ! j) < Start (xs ! i)"
  shows "least_upto i (j + 1) xs"
  unfolding least_upto_def
proof (intro allI impI)
  fix k
  assume k: "i < k \<and> k < j + 1 \<and> k < length xs"
  show "Start (xs ! i) \<le> Start (xs ! k)"
  proof (cases "k = j")
    case True
    with assms(2) show ?thesis by simp
  next
    case False
    with k assms(1) show ?thesis by (simp add: least_upto_def)
  qed
qed

lemma sort_inner_invariant:
  "i < j \<Longrightarrow> settled i xs \<Longrightarrow> least_upto i j xs \<Longrightarrow>
   settled i (sort_inner i j xs) \<and> least_upto i (length xs) (sort_inner i j xs)
   \<and> mset (sort_inner i j xs) = mset xs"
proof (induction i j xs rule: sort_inner.induct)
  case (1 i j events)
  show ?case
  proof (cases "j < length events")
    case False
    with 1 show ?thesis
      by (subst (1 2 3) sort_inner.simps) (auto simp: least_upto_def)
  next
    case True
    let ?next = "if Start (events ! j) < Start (events ! i)
              then events[i := events ! j, j := events ! i] else events"
    have len: "length ?next = length events" by simp
    have s: "settled i ?next"
      using 1(3) 1(2) True by (simp add: swap_settled)
    have l: "least_upto i (j + 1) ?next"
      using swap_least [OF 1(4) 1(2) True] keep_least [OF 1(4)] by auto
    have m: "mset ?next = mset events"
      using 1(2) True by (simp add: mset_swap)
    from 1(1) [OF True _ s l] 1(2) len m
    have "settled i (sort_inner i (j + 1) ?next) \<and> least_upto i (length events) (sort_inner i (j + 1) ?next)
       \<and> mset (sort_inner i (j + 1) ?next) = mset events"
      by simp
    moreover have "sort_inner i j events = sort_inner i (j + 1) ?next"
      using True by (subst sort_inner.simps) simp
    ultimately show ?thesis by simp
  qed
qed

lemma settled_Suc:
  assumes "settled i xs" "least_upto i (length xs) xs"
  shows "settled (Suc i) xs"
  unfolding settled_def
proof (intro allI impI)
  fix a b
  assume ab: "a < b \<and> b < length xs \<and> a < Suc i"
  show "Start (xs ! a) \<le> Start (xs ! b)"
  proof (cases "a = i")
    case True
    with ab assms(2) show ?thesis by (simp add: least_upto_def)
  next
    case False
    with ab assms(1) show ?thesis by (simp add: settled_def)
  qed
qed

lemma sort_outer_invariant:
  "settled i xs \<Longrightarrow> settled (length xs) (sort_outer i xs) \<and> mset (sort_outer i xs) = mset xs"
proof (induction i xs rule: sort_outer.induct)
  case (1 i events)
  show ?case
  proof (cases "i + 1 < length events")
    case False
    have "settled (length events) events"
      unfolding settled_def
    proof (intro allI impI)
      fix a b
      assume "a < b \<and> b < length events \<and> a < length events"
      with False have "a < b \<and> b < length events \<and> a < i" by auto
      with 1(2) show "Start (events ! a) \<le> Start (events ! b)" by (simp add: settled_def)
    qed
    with False show ?thesis by (subst (1 2) sort_outer.simps) simp
  next
    case True
    let ?next = "sort_inner i (i + 1) events"
    have "least_upto i (i + 1) events" by (simp add: least_upto_def)
    with sort_inner_invariant [of i "i + 1" events] 1(2)
    have inv: "settled i ?next" "least_upto i (length events) ?next" "mset ?next = mset events"
      by simp_all
    then have "settled (i + 1) ?next" using settled_Suc [of i ?next] by simp
    with 1(1) [OF True] inv(3)
    have "settled (length events) (sort_outer (i + 1) ?next) \<and> mset (sort_outer (i + 1) ?next) = mset events"
      by simp
    moreover have "sort_outer i events = sort_outer (i + 1) ?next"
      using True by (subst sort_outer.simps) simp
    ultimately show ?thesis by simp
  qed
qed

lemma sortEventsByStart_sorted:
  "sorted_wrt (\<lambda>a b. Start a \<le> Start b) (sortEventsByStart events)
   \<and> mset (sortEventsByStart events) = mset events"
proof -
  have "settled 0 events" by (simp add: settled_def)
  then have s: "settled (length events) (sort_outer 0 events)" and m: "mset (sort_outer 0 events) = mset events"
    using sort_outer_invariant [of 0 events] by simp_all
  have len: "length (sort_outer 0 events) = length events"
    using m by (metis size_mset)
  have "sorted_wrt (\<lambda>a b. Start a \<le> Start b) (sort_outer 0 events)"
    using s len by (auto simp: sorted_wrt_iff_nth_less settled_def)
  with m show ?thesis by (simp add: sortEventsByStart_def)
qed

lemma fan_in_eq:
  "fan_in task names errChan allRows = (errChan @ failures task names, allRows @ answers task names)"
  by (induction names arbitrary: errChan allRows)
    (auto simp: failures_def answers_def split: sum.splits)

lemma date_range_Load:
  "date_range env fl w = (r, w1) \<Longrightarrow> Load env w1 = Load env w"
  by (auto simp: date_range_def time_Now_def split: if_splits sum.splits prod.splits)

lemma calListCmd_eq:
  assumes "date_range env fl w = (Inr (fromTime, toTime), w1)"
    and "Load env w = Inr cfg" and "HasAccounts cfg"
    and "selected_accounts env cfg fl = Inr accounts"
  shows "calListCmd env fl w =
     (Inr (failures (events_task env cfg fromTime toTime (ls_limit fl)) (finish_order env accounts),
           sortEventsByStart
             (answers (events_task env cfg fromTime toTime (ls_limit fl)) (finish_order env accounts))),
      w1)"
proof -
  from date_range_Load [OF assms(1)] assms(2) have "Load env w1 = Inr cfg"
    by simp
  with assms(1,3,4) show ?thesis
    by (simp add: calListCmd_def fan_in_eq)
qed

lemma mailReadCmd_eq:
  assumes "Load env w = Inr cfg" and "HasAccounts cfg"
    and "selected_accounts env cfg fl = Inr accounts"
  shows "mailReadCmd env fl w =
     (Inr (failures (emails_task env cfg (ls_query fl) (ls_limit fl)) (finish_order env accounts),
           answers (emails_task env cfg (ls_query fl) (ls_limit fl)) (finish_order env accounts)),
      w)"
  using assms by (simp add: mailReadCmd_def fan_in_eq)

lemma summaries_loop_eq:
  "summaries_loop env client msgs summaries = summaries @ readable_rows env client msgs"
  by (induction msgs arbitrary: summaries) (auto simp: readable_rows_def split: sum.splits)

lemma emails_task_rows:
  assumes "emails_task env cfg q lim name = Inr rows"
  shows "\<exists>ids. Messages_List env name (if q \<noteq> [] then Some q else None)
                  (if lim > 0 then Some lim else None) = Inr ids
               \<and> rows = readable_rows env name ids"
  using assms
  by (auto simp: emails_task_def NewClient_def ListMessages_def summaries_loop_eq
      split: sum.splits option.splits prod.splits)

lemmas listing_defs = Load_def GetConfigPath_def GetConfigDir_def HasAccounts_def
  selected_accounts_def GetAllAccounts_def GetAccount_def tagged_def
  listing_env_def sample_env_def listing_config_def sample_account_def sample_world_def all_flags_def

lemma sample_date_range:
  "date_range listing_env all_flags (sample_world []) =
     (Inr (100, 604800000000100), (sample_world [])\<lparr>tick := 1\<rparr>)"
  by (simp add: date_range_def time_Now_def all_flags_def sample_world_def)

lemma sample_accounts:
  "Load listing_env (sample_world []) = Inr listing_config"
  "HasAccounts listing_config"
  "selected_accounts listing_env listing_config all_flags = Inr [''old'', ''personal'', ''work'']"
  "finish_order listing_env [''old'', ''personal'', ''work''] = [''work'', ''personal'', ''old'']"
  by (simp_all add: listing_defs fun_eq_iff) (rule exI [of _ "''old''"], simp)

lemma sample_events_task:
  "events_task listing_env listing_config lo hi 25 ''work'' =
     Inr [listed_event ''work'' ''e30'' 30, listed_event ''work'' ''e10'' 10]"
  "events_task listing_env listing_config lo hi 25 ''personal'' = Inr [listed_event ''personal'' ''e20'' 20]"
  "events_task listing_env listing_config lo hi 25 ''old'' =
     Inl ''[old] failed to get authenticated client: token expired''"
  by (simp_all add: events_task_def calendar_NewClient_def ListEvents_def listing_defs
      listed_event_def sample_event_def)

lemma sample_emails_task:
  "emails_task listing_env listing_config [] 25 ''work'' =
     Inr [listed_email ''work'' ''m2'' 200, listed_email ''work'' ''m1'' 100]"
  "emails_task listing_env listing_config [] 25 ''personal'' = Inr [listed_email ''personal'' ''m3'' 150]"
  "emails_task listing_env listing_config [] 25 ''old'' =
     Inl ''[old] failed to get authenticated client: token expired''"
  by (simp_all add: emails_task_def NewClient_def ListMessages_def listing_defs
      listed_email_def sample_email_def)

lemma sample_sorted_events:
  "sortEventsByStart [listed_event ''work'' ''e30'' 30, listed_event ''work'' ''e10'' 10,
                      listed_event ''personal'' ''e20'' 20] =
     [listed_event ''work'' ''e10'' 10, listed_event ''personal'' ''e20'' 20,
      listed_event ''work'' ''e30'' 30]"
  by (simp add: sortEventsByStart_def sort_outer.simps sort_inner.simps listed_event_def sample_event_def)

lemma encodable_new_record:
  "encodable w (email\<lparr>ID := i, CreatedAt := c, Sent := b\<rparr>) = encodable w (email\<lparr>CreatedAt := c\<rparr>)"
  by (simp add: encodable_def)

lemma Add_exact:
  assumes "LoadScheduledEmails w = Inr emails" and "writable w"
    and "encodable w (email\<lparr>CreatedAt := clock w (Suc (tick w))\<rparr>)"
  shows "AddScheduledEmail email w =
        (None, w\<lparr>tick := tick w + 2,
                 disk := Stored (emails @ [email\<lparr>ID := fst (generateID w),
                                                 CreatedAt := clock w (Suc (tick w)),
                                                 Sent := False\<rparr>])\<rparr>)"
proof -
  let ?w2 = "w\<lparr>tick := Suc (Suc (tick w))\<rparr>"
  let ?r = "email\<lparr>ID := fst (generateID w), CreatedAt := clock w (Suc (tick w)), Sent := False\<rparr>"
  have "list_all (encodable ?w2) (emails @ [?r])"
    using Loaded_encodable [OF assms(1)] assms(3) by (simp add: encodable_new_record)
  moreover have "writable ?w2"
    using assms(2) by simp
  ultimately have "SaveScheduledEmails (emails @ [?r]) ?w2 = (None, ?w2\<lparr>disk := Stored (emails @ [?r])\<rparr>)"
    by (rule Save_writable [rotated])
  with assms(1) show ?thesis
    by (simp add: AddScheduledEmail_def generateID_def time_Now_def)
qed

lemma Add_succeeds_iff:
  "(fst (AddScheduledEmail email w) = None) =
     ((\<exists>es. LoadScheduledEmails w = Inr es) \<and> writable w
       \<and> encodable w (email\<lparr>CreatedAt := clock w (Suc (tick w))\<rparr>))"
proof (cases "LoadScheduledEmails w")
  case (Inl t)
  then show ?thesis by (simp add: AddScheduledEmail_def)
next
  case (Inr es0)
  let ?w2 = "w\<lparr>tick := Suc (Suc (tick w))\<rparr>"
  have path: "\<exists>p. getScheduledPath w = Inr p"
    using Inr by (auto simp: LoadScheduledEmails_def split: sum.splits)
  have save: "fst (SaveScheduledEmails xs ?w2) = None \<longleftrightarrow> writable w \<and> list_all (encodable w) xs" for xs
    using path
    by (auto simp: writable_def SaveScheduledEmails_def EnsureConfigDir_def getScheduledPath_def
        GetTokensDir_def GetConfigDir_def split: sum.splits option.splits)
  show ?thesis
    using Inr Loaded_encodable [OF Inr]
    by (simp add: AddScheduledEmail_def generateID_def time_Now_def save encodable_new_record)
qed

lemma Add_loaded:
  assumes "LoadScheduledEmails w = Inr emails" and "AddScheduledEmail email w = (None, w')"
  shows "LoadScheduledEmails w' =
      Inr (emails @ [email\<lparr>ID := fst (generateID w), CreatedAt := clock w (Suc (tick w)), Sent := False\<rparr>])"
proof -
  let ?r = "email\<lparr>ID := fst (generateID w), CreatedAt := clock w (Suc (tick w)), Sent := False\<rparr>"
  from assms(2) have "fst (AddScheduledEmail email w) = None" by simp
  then have wr: "writable w" and en: "encodable w (email\<lparr>CreatedAt := clock w (Suc (tick w))\<rparr>)"
    by (simp_all add: Add_succeeds_iff)
  from Add_exact [OF assms(1) wr en] assms(2)
  have w': "w' = w\<lparr>tick := tick w + 2, disk := Stored (emails @ [?r])\<rparr>"
    by simp
  have "list_all (encodable (w\<lparr>tick := tick w + 2\<rparr>)) (emails @ [?r])"
    using Loaded_encodable [OF assms(1)] en by (simp add: encodable_new_record)
  moreover have "writable (w\<lparr>tick := tick w + 2\<rparr>)"
    using wr by simp
  ultimately show ?thesis
    unfolding w' by (rule Load_after_write [rotated])
qed

lemma mailScheduleCmd_appends:
  assumes "LoadScheduledEmails w = Inr emails" and "mailScheduleCmd env fl w = (None, w')"
  shows "\<exists>r. LoadScheduledEmails w' = Inr (emails @ [r]) \<and> \<not> Sent r \<and> Error r = []"
proof -
  from assms(2) have "\<exists>item n ds. AddScheduledEmail item (w\<lparr>tick := n, drafts := ds\<rparr>) = (None, w')
      \<and> Error item = []"
    unfolding mailScheduleCmd_def
    by (fastforce simp: time_Now_def CreateDraft_def
        split: if_splits sum.splits prod.splits option.splits)
  then obtain item n ds where
    a: "AddScheduledEmail item (w\<lparr>tick := n, drafts := ds\<rparr>) = (None, w')" and i: "Error item = []"
    by blast
  from assms(1) have "LoadScheduledEmails (w\<lparr>tick := n, drafts := ds\<rparr>) = Inr emails"
    by simp
  from Add_loaded [OF this a] i show ?thesis
    by auto
qed

lemma sample_schedule:
  "mailScheduleCmd sample_env later_flags (sample_world [sample_sent]) = (None, schedule_result)"
  by (simp add: mailScheduleCmd_def later_flags_def sample_flags_def parseDateTime_def
      local_layouts_def time_Now_def
      Load_def GetConfigPath_def GetConfigDir_def GetAccount_def NewClient_def CreateDraft_def
      AddScheduledEmail_def generateID_def LoadScheduledEmails_def getScheduledPath_def
      SaveScheduledEmails_def EnsureConfigDir_def GetTokensDir_def encodable_def year_in_range_def
      UnixNano_101 Sprintf_d_def decimal_101 sample_world_def sample_env_def sample_config_def
      sample_account_def schedule_result_def scheduled_record_def samples)

section \<open>The claims about the store\<close>

text \<open>
  Claim C2 (pending predicate). When the store holds \<open>emails\<close> and the clock reads
  \<open>now\<close>, \<^verbatim>\<open>GetPendingScheduledEmails\<close> returns exactly the records, in the store's order,
  that are not sent, carry no error and are scheduled strictly before \<open>now\<close> (and belong
  to the account, when an account is given). The comparison is strict: in the example
  below the record scheduled at the very instant the clock reads is left out.
\<close>

theorem GetPendingScheduledEmails_exact:
  assumes "LoadScheduledEmails w = Inr emails" and "time_Now w = (now, w1)"
  shows "GetPendingScheduledEmails accountName w =
    (Inr (filter (\<lambda>e. \<not> Sent e \<and> Error e = [] \<and> ScheduledAt e < now \<and>
                      (accountName = [] \<or> Account e = accountName)) emails), w1)"
  using assms by (simp add: GetPendingScheduledEmails_def pending_loop_filter)

theorem GetPendingScheduledEmails_exact_witness:
  "LoadScheduledEmails (sample_world [sample_due, sample_sent, sample_failed, sample_now]) =
     Inr [sample_due, sample_sent, sample_failed, sample_now] \<and>
   time_Now (sample_world [sample_due, sample_sent, sample_failed, sample_now]) =
     (100, (sample_world [sample_due, sample_sent, sample_failed, sample_now])\<lparr>tick := 1\<rparr>) \<and>
   ScheduledAt sample_now = 100 \<and>
   GetPendingScheduledEmails [] (sample_world [sample_due, sample_sent, sample_failed, sample_now]) =
     (Inr [sample_due], (sample_world [sample_due, sample_sent, sample_failed, sample_now])\<lparr>tick := 1\<rparr>)"
proof -
  let ?w = "sample_world [sample_due, sample_sent, sample_failed, sample_now]"
  have l: "LoadScheduledEmails ?w = Inr [sample_due, sample_sent, sample_failed, sample_now]"
    by (rule Load_sample_world)
  have t: "time_Now ?w = (100, ?w\<lparr>tick := 1\<rparr>)"
    by (simp add: time_Now_def sample_world_def)
  show ?thesis
    using GetPendingScheduledEmails_exact [OF l t, of "[]"] l t
    by (simp add: samples)
qed

text \<open>
  Claim C3 (clearing sent records). When the store holds \<open>emails\<close> and can be written,
  \<^verbatim>\<open>ClearSentScheduledEmails\<close> stores exactly the records that are not sent or, when an
  account is given, belong to another account; the unsent records of the store are all
  kept, in their order.
\<close>

theorem ClearSentScheduledEmails_exact:
  assumes "LoadScheduledEmails w = Inr emails" and "writable w"
  shows "ClearSentScheduledEmails accountName w =
      (None, w\<lparr>disk := Stored (filter (\<lambda>e. \<not> Sent e \<or> (accountName \<noteq> [] \<and> Account e \<noteq> accountName)) emails)\<rparr>)
    \<and> filter (\<lambda>e. \<not> Sent e) (filter (\<lambda>e. \<not> Sent e \<or> (accountName \<noteq> [] \<and> Account e \<noteq> accountName)) emails)
        = filter (\<lambda>e. \<not> Sent e) emails"
proof
  show "ClearSentScheduledEmails accountName w =
      (None, w\<lparr>disk := Stored (filter (\<lambda>e. \<not> Sent e \<or> (accountName \<noteq> [] \<and> Account e \<noteq> accountName)) emails)\<rparr>)"
    using assms Loaded_encodable [OF assms(1)]
    by (simp add: ClearSentScheduledEmails_def clear_sent_loop_filter Save_writable list_all_iff)
  show "filter (\<lambda>e. \<not> Sent e) (filter (\<lambda>e. \<not> Sent e \<or> (accountName \<noteq> [] \<and> Account e \<noteq> accountName)) emails)
        = filter (\<lambda>e. \<not> Sent e) emails"
    by (induction emails) auto
qed

theorem ClearSentScheduledEmails_exact_witness:
  "LoadScheduledEmails (sample_world [sample_sent, sample_due, sample_sent_personal]) =
     Inr [sample_sent, sample_due, sample_sent_personal] \<and>
   writable (sample_world [sample_sent, sample_due, sample_sent_personal]) \<and>
   ClearSentScheduledEmails ''work'' (sample_world [sample_sent, sample_due, sample_sent_personal]) =
     (None, sample_world [sample_due, sample_sent_personal]) \<and>
   ClearSentScheduledEmails [] (sample_world [sample_sent, sample_due, sample_sent_personal]) =
     (None, sample_world [sample_due])"
proof -
  let ?w = "sample_world [sample_sent, sample_due, sample_sent_personal]"
  have l: "LoadScheduledEmails ?w = Inr [sample_sent, sample_due, sample_sent_personal]"
    by (rule Load_sample_world)
  have wr: "writable ?w"
    by (rule writable_sample_world)
  show ?thesis
    using ClearSentScheduledEmails_exact [OF l wr, of "''work''"]
      ClearSentScheduledEmails_exact [OF l wr, of "[]"] l wr
    by (simp add: samples sample_world_def)
qed

text \<open>
  Claim C4 (marking an absent id). When the store holds \<open>emails\<close> and none of them has
  the id, \<^verbatim>\<open>MarkScheduledEmailSent\<close> and \<^verbatim>\<open>MarkScheduledEmailError\<close> return the error
  \<^verbatim>\<open>scheduled email '<id>' not found\<close> and leave the world, the stored file included, as
  it was: nothing is written and the clock is not read.
\<close>

theorem Mark_not_found_unchanged:
  assumes "LoadScheduledEmails w = Inr emails" and "eid \<notin> ID ` set emails"
  shows "MarkScheduledEmailSent eid messageID w =
      (Some (''scheduled email '' @ [CHR 0x27] @ eid @ [CHR 0x27] @ '' not found''), w)
    \<and> MarkScheduledEmailError eid errMsg w =
      (Some (''scheduled email '' @ [CHR 0x27] @ eid @ [CHR 0x27] @ '' not found''), w)"
  using assms
  by (simp add: MarkScheduledEmailSent_def MarkScheduledEmailError_def UpdateScheduledEmail_def update_loop_absent)

theorem Mark_not_found_unchanged_witness:
  "LoadScheduledEmails (sample_world [sample_due, sample_sent]) = Inr [sample_due, sample_sent] \<and>
   ''9'' \<notin> ID ` set [sample_due, sample_sent] \<and>
   MarkScheduledEmailSent ''9'' ''m'' (sample_world [sample_due, sample_sent]) =
     (Some (''scheduled email '' @ [CHR 0x27] @ ''9'' @ [CHR 0x27] @ '' not found''), sample_world [sample_due, sample_sent]) \<and>
   MarkScheduledEmailError ''9'' ''boom'' (sample_world [sample_due, sample_sent]) =
     (Some (''scheduled email '' @ [CHR 0x27] @ ''9'' @ [CHR 0x27] @ '' not found''), sample_world [sample_due, sample_sent])"
proof -
  let ?w = "sample_world [sample_due, sample_sent]"
  have l: "LoadScheduledEmails ?w = Inr [sample_due, sample_sent]"
    by (rule Load_sample_world)
  have a: "''9'' \<notin> ID ` set [sample_due, sample_sent]"
    by (simp add: samples)
  show ?thesis
    using Mark_not_found_unchanged [OF l a, of "''m''" "''boom''"] l a by simp
qed

text \<open>
  Claim C10 (the remote message id is not stored). \<^verbatim>\<open>MarkScheduledEmailSent\<close> returns the
  same error and the same world whatever message id it is given. When the store holds
  \<open>emails\<close> before the call, it holds afterwards, position by position, each record as it
  was or with nothing but \<^verbatim>\<open>Sent\<close> set and \<^verbatim>\<open>SentAt\<close> set to the clock reading.
\<close>

theorem MarkScheduledEmailSent_messageID_unused:
  "MarkScheduledEmailSent eid m1 w = MarkScheduledEmailSent eid m2 w
   \<and> (LoadScheduledEmails w = Inr emails \<longrightarrow>
        (\<exists>emails'. LoadScheduledEmails (snd (MarkScheduledEmailSent eid m1 w)) = Inr emails'
           \<and> list_all2 (\<lambda>e r. r = e \<or> r = e\<lparr>Sent := True, SentAt := clock w (tick w)\<rparr>) emails emails'))"
proof (intro conjI impI)
  show "MarkScheduledEmailSent eid m1 w = MarkScheduledEmailSent eid m2 w"
    by (simp add: MarkScheduledEmailSent_def)
next
  assume l: "LoadScheduledEmails w = Inr emails"
  let ?f = "\<lambda>e w0. let (now, w1) = time_Now w0 in (e\<lparr>Sent := True, SentAt := now\<rparr>, w1)"
  obtain xs b w1 where u: "update_loop eid ?f emails w = (xs, b, w1)"
    by (metis prod_cases3)
  have p: "list_all2 (\<lambda>e r. r = e \<or> r = e\<lparr>Sent := True, SentAt := clock w (tick w)\<rparr>) emails xs"
    using u by (rule update_loop_Sent_pointwise)
  have same: "list_all2 (\<lambda>e r. r = e \<or> r = e\<lparr>Sent := True, SentAt := clock w (tick w)\<rparr>) emails emails"
    by (simp add: list_all2_same)
  from update_loop_Sent_world [OF u] l have l1: "LoadScheduledEmails w1 = Inr emails"
    by auto
  show "\<exists>emails'. LoadScheduledEmails (snd (MarkScheduledEmailSent eid m1 w)) = Inr emails'
           \<and> list_all2 (\<lambda>e r. r = e \<or> r = e\<lparr>Sent := True, SentAt := clock w (tick w)\<rparr>) emails emails'"
  proof (cases b)
    case False
    with l u have "snd (MarkScheduledEmailSent eid m1 w) = w1"
      by (simp add: MarkScheduledEmailSent_def UpdateScheduledEmail_def)
    with l1 same show ?thesis by auto
  next
    case True
    with l u have "snd (MarkScheduledEmailSent eid m1 w) = snd (SaveScheduledEmails xs w1)"
      by (simp add: MarkScheduledEmailSent_def UpdateScheduledEmail_def)
    moreover have "LoadScheduledEmails (snd (SaveScheduledEmails xs w1)) = Inr emails
        \<or> LoadScheduledEmails (snd (SaveScheduledEmails xs w1)) = Inr xs"
      using Load_after_Save [OF l1, of xs "fst (SaveScheduledEmails xs w1)" "snd (SaveScheduledEmails xs w1)"]
      by simp
    ultimately show ?thesis using p same by auto
  qed
qed

theorem MarkScheduledEmailSent_messageID_unused_witness:
  "MarkScheduledEmailSent ''1'' ''m-a'' (sample_world [sample_due, sample_now]) =
     MarkScheduledEmailSent ''1'' ''m-b'' (sample_world [sample_due, sample_now]) \<and>
   LoadScheduledEmails (sample_world [sample_due, sample_now]) = Inr [sample_due, sample_now] \<and>
   MarkScheduledEmailSent ''1'' ''m-a'' (sample_world [sample_due, sample_now]) =
     (None, (sample_world [sample_due\<lparr>Sent := True, SentAt := 100\<rparr>, sample_now])\<lparr>tick := 1\<rparr>)"
proof -
  let ?w = "sample_world [sample_due, sample_now]"
  have l: "LoadScheduledEmails ?w = Inr [sample_due, sample_now]" by (rule Load_sample_world)
  have e: "MarkScheduledEmailSent ''1'' ''m-a'' ?w =
     (None, (sample_world [sample_due\<lparr>Sent := True, SentAt := 100\<rparr>, sample_now])\<lparr>tick := 1\<rparr>)"
    by (simp add: store_defs sample_world_def samples)
  from MarkScheduledEmailSent_messageID_unused [of "''1''" "''m-a''" ?w "''m-b''" "[sample_due, sample_now]"] l e
  show ?thesis by blast
qed

text \<open>
  Claim C7 (adding a record), as amended. When the store holds \<open>emails\<close> and can be
  written, and the item with its new creation time can be encoded, \<^verbatim>\<open>AddScheduledEmail\<close>
  succeeds and stores \<open>emails\<close> followed by the item with its id set to what
  \<^verbatim>\<open>generateID\<close> returns, its creation time set to the next clock reading and \<^verbatim>\<open>Sent\<close>
  set to false; every other field, \<^verbatim>\<open>Error\<close> included, is the item's. It succeeds
  exactly when the store can be loaded and written and the item can be encoded, whatever
  else the store and the item hold. When \<^verbatim>\<open>mail schedule\<close> succeeds, the store holds one
  more record, at the end, and that record is not sent and carries no error.
\<close>

theorem AddScheduledEmail_semantics:
  "(LoadScheduledEmails w = Inr emails \<and> writable w
      \<and> encodable w (email\<lparr>CreatedAt := clock w (Suc (tick w))\<rparr>) \<longrightarrow>
      AddScheduledEmail email w =
        (None, w\<lparr>tick := tick w + 2,
                 disk := Stored (emails @ [email\<lparr>ID := fst (generateID w),
                                                 CreatedAt := clock w (Suc (tick w)),
                                                 Sent := False\<rparr>])\<rparr>))
   \<and> ((fst (AddScheduledEmail email w) = None) =
        ((\<exists>es. LoadScheduledEmails w = Inr es) \<and> writable w
          \<and> encodable w (email\<lparr>CreatedAt := clock w (Suc (tick w))\<rparr>)))
   \<and> (LoadScheduledEmails w = Inr emails \<and> mailScheduleCmd env fl w = (None, w') \<longrightarrow>
        (\<exists>r. LoadScheduledEmails w' = Inr (emails @ [r]) \<and> \<not> Sent r \<and> Error r = []))"
proof (intro conjI impI)
  show "AddScheduledEmail email w =
        (None, w\<lparr>tick := tick w + 2,
                 disk := Stored (emails @ [email\<lparr>ID := fst (generateID w),
                                                 CreatedAt := clock w (Suc (tick w)),
                                                 Sent := False\<rparr>])\<rparr>)"
    if "LoadScheduledEmails w = Inr emails \<and> writable w
      \<and> encodable w (email\<lparr>CreatedAt := clock w (Suc (tick w))\<rparr>)"
    using that by (simp add: Add_exact)
  show "(fst (AddScheduledEmail email w) = None) =
        ((\<exists>es. LoadScheduledEmails w = Inr es) \<and> writable w
          \<and> encodable w (email\<lparr>CreatedAt := clock w (Suc (tick w))\<rparr>))"
    by (rule Add_succeeds_iff)
  show "\<exists>r. LoadScheduledEmails w' = Inr (emails @ [r]) \<and> \<not> Sent r \<and> Error r = []"
    if "LoadScheduledEmails w = Inr emails \<and> mailScheduleCmd env fl w = (None, w')"
    using that mailScheduleCmd_appends [of w emails env fl w'] by blast
qed

theorem AddScheduledEmail_semantics_witness:
  "LoadScheduledEmails (sample_world [sample_sent]) = Inr [sample_sent] \<and>
   writable (sample_world [sample_sent]) \<and>
   encodable (sample_world [sample_sent]) (sample_failed\<lparr>Sent := True, CreatedAt := 101\<rparr>) \<and>
   AddScheduledEmail (sample_failed\<lparr>Sent := True\<rparr>) (sample_world [sample_sent]) =
     (None, (sample_world [sample_sent,
               sample_failed\<lparr>ID := ''100'', CreatedAt := 101, Sent := False\<rparr>])\<lparr>tick := 2\<rparr>) \<and>
   fst (AddScheduledEmail sample_sent (sample_world [sample_sent])) = None \<and>
   mailScheduleCmd sample_env later_flags (sample_world [sample_sent]) =
     (None, schedule_result) \<and>
   (\<exists>r. LoadScheduledEmails schedule_result = Inr [sample_sent, r] \<and> \<not> Sent r \<and> Error r = [])"
proof -
  let ?w = "sample_world [sample_sent]"
  have l: "LoadScheduledEmails ?w = Inr [sample_sent]"
    by (rule Load_sample_world)
  have wr: "writable ?w"
    by (rule writable_sample_world)
  have ex: "\<exists>es. LoadScheduledEmails ?w = Inr es"
    using l by blast
  have en: "encodable ?w e" for e
    by simp
  have g: "fst (generateID ?w) = ''100''"
    by (simp add: generateID_def time_Now_def sample_world_def UnixNano_100 Sprintf_d_def decimal_100)
  have c: "clock ?w (Suc (tick ?w)) = 101" "tick ?w = 0"
    by (simp_all add: sample_world_def)
  have m: "mailScheduleCmd sample_env later_flags ?w = (None, schedule_result)"
    by (rule sample_schedule)
  have a1: "AddScheduledEmail (sample_failed\<lparr>Sent := True\<rparr>) ?w =
     (None, (sample_world [sample_sent,
               sample_failed\<lparr>ID := ''100'', CreatedAt := 101, Sent := False\<rparr>])\<lparr>tick := 2\<rparr>)"
    using AddScheduledEmail_semantics [of ?w "[sample_sent]" "sample_failed\<lparr>Sent := True\<rparr>" sample_env
        later_flags schedule_result] l wr en g c
    by (simp add: sample_world_def)
  have a2: "fst (AddScheduledEmail sample_sent ?w) = None"
    using AddScheduledEmail_semantics [of ?w "[sample_sent]" sample_sent sample_env
        later_flags schedule_result] ex wr en
    by simp
  have a3: "\<exists>r. LoadScheduledEmails schedule_result = Inr [sample_sent, r] \<and> \<not> Sent r \<and> Error r = []"
    using AddScheduledEmail_semantics [of ?w "[sample_sent]" sample_sent sample_env
        later_flags schedule_result] l m
    by simp
  from l wr en a1 a2 m a3 show ?thesis by blast
qed

text \<open>
  Claim C7 as stated fails in two ways. An item that carries an error text is stored
  with that text, unsent, and is not pending although its time has passed. And an item
  whose time has a year beyond 9999 makes the call fail, with no write attempted, on a
  store that loads and can be written.
\<close>

theorem AddScheduledEmail_not_pending_counterexample:
  "AddScheduledEmail sample_failed (sample_world []) =
     (None, (sample_world [sample_failed\<lparr>ID := ''100'', CreatedAt := 101\<rparr>])\<lparr>tick := 2\<rparr>) \<and>
   Error (sample_failed\<lparr>ID := ''100'', CreatedAt := 101\<rparr>) = ''boom'' \<and>
   ScheduledAt (sample_failed\<lparr>ID := ''100'', CreatedAt := 101\<rparr>) < 102 \<and>
   GetPendingScheduledEmails []
       ((sample_world [sample_failed\<lparr>ID := ''100'', CreatedAt := 101\<rparr>])\<lparr>tick := 2\<rparr>) =
     (Inr [], (sample_world [sample_failed\<lparr>ID := ''100'', CreatedAt := 101\<rparr>])\<lparr>tick := 3\<rparr>) \<and>
   LoadScheduledEmails far_year_world = Inr [] \<and> writable far_year_world \<and>
   AddScheduledEmail (sample_due\<lparr>ScheduledAt := 253402300800000000000\<rparr>) far_year_world =
     (Some (''failed to marshal scheduled emails: '' @
            ''json: error calling MarshalJSON for type time.Time: '' @
            ''Time.MarshalJSON: year outside of range [0,9999]''),
      far_year_world\<lparr>tick := 2\<rparr>)"
  by (simp add: AddScheduledEmail_def generateID_def time_Now_def LoadScheduledEmails_def
      getScheduledPath_def GetConfigDir_def SaveScheduledEmails_def EnsureConfigDir_def GetTokensDir_def
      GetPendingScheduledEmails_def sample_world_def Sprintf_d_def decimal_100 samples
      encodable_def year_in_range_def UnixNano_100 far_year_world_def writable_def)

text \<open>
  Claim C8 (unique ids) at a failing input: two records added while the clock gives the
  same reading to both calls of \<^verbatim>\<open>generateID\<close> are stored with the same id.
\<close>

theorem generateID_collision:
  "snd (AddScheduledEmail sample_now (snd (AddScheduledEmail sample_due stepped_back_world))) =
     stepped_back_world\<lparr>tick := 4,
        disk := Stored [sample_due\<lparr>ID := ''100'', CreatedAt := 101\<rparr>,
                        sample_now\<lparr>ID := ''100'', CreatedAt := 101\<rparr>]\<rparr> \<and>
   fst (AddScheduledEmail sample_due stepped_back_world) = None \<and>
   fst (AddScheduledEmail sample_now (snd (AddScheduledEmail sample_due stepped_back_world))) = None \<and>
   \<not> distinct (map ID [sample_due\<lparr>ID := ''100'', CreatedAt := 101\<rparr>,
                        sample_now\<lparr>ID := ''100'', CreatedAt := 101\<rparr>])"
  by (simp add: AddScheduledEmail_def generateID_def time_Now_def LoadScheduledEmails_def
      getScheduledPath_def GetConfigDir_def SaveScheduledEmails_def EnsureConfigDir_def GetTokensDir_def
      encodable_def year_in_range_def UnixNano_100
      stepped_back_world_def sample_world_def Sprintf_d_def decimal_100 samples)

section \<open>The claims about the commands\<close>

text \<open>
  Claim C9 (a past schedule time is rejected). When the recipient, subject, body and time
  flags are given and the time parses, \<^verbatim>\<open>mail schedule\<close> returns the error
  \<^verbatim>\<open>schedule time must be in the future\<close> if the time is strictly before the clock
  reading, having changed neither the store nor the drafts nor the outbox; when the time
  is the clock reading or later, it never returns that error.
\<close>

theorem mailScheduleCmd_rejects_past:
  assumes "flag_to fl \<noteq> []" and "flag_subject fl \<noteq> []" and "flag_body fl \<noteq> []"
    and "flag_at fl \<noteq> []"
    and "parseDateTime env (flag_at fl) = Inr scheduledAt"
    and "time_Now w = (now, w1)"
  shows "(scheduledAt < now \<longrightarrow>
           mailScheduleCmd env fl w = (Some ''schedule time must be in the future'', w1)
           \<and> disk w1 = disk w \<and> drafts w1 = drafts w \<and> outbox w1 = outbox w)
       \<and> (\<not> scheduledAt < now \<longrightarrow>
           fst (mailScheduleCmd env fl w) \<noteq> Some ''schedule time must be in the future'')"
proof (intro conjI impI)
  assume "scheduledAt < now"
  with assms show "mailScheduleCmd env fl w = (Some ''schedule time must be in the future'', w1)"
    by (simp add: mailScheduleCmd_def)
  from assms(6) show "disk w1 = disk w" "drafts w1 = drafts w" "outbox w1 = outbox w"
    by (auto simp: time_Now_def)
next
  assume n: "\<not> scheduledAt < now"
  let ?bad = "''schedule time must be in the future''"
  have h: "hd ?bad = CHR ''s''" by simp
  show "fst (mailScheduleCmd env fl w) \<noteq> Some ?bad"
  proof (cases "Load env w1")
    case (Inl t)
    with assms n show ?thesis by (simp add: mailScheduleCmd_def)
  next
    case cfg: (Inr cfg)
    show ?thesis
    proof (cases "GetAccount cfg (flag_account fl)")
      case (Inl t)
      with GetAccount_text [OF Inl] h have "t \<noteq> ?bad" by metis
      with assms n cfg Inl show ?thesis by (simp add: mailScheduleCmd_def)
    next
      case (Inr na)
      obtain name acc where na: "na = (name, acc)" by (cases na)
      show ?thesis
      proof (cases "NewClient env name acc")
        case (Inl t)
        with NewClient_text [OF Inl] h have "t \<noteq> ?bad" by metis
        with assms n cfg Inr na Inl show ?thesis by (simp add: mailScheduleCmd_def)
      next
        case cl: (Inr client)
        let ?d = "\<lparr>draft_To = flag_to fl, draft_CC = flag_cc fl, draft_BCC = flag_bcc fl,
                    draft_Subject = flag_subject fl, draft_Body = flag_body fl,
                    draft_IsHTML = flag_html fl\<rparr>"
        obtain r w2 where cd: "CreateDraft env client ?d w1 = (r, w2)" by (cases "CreateDraft env client ?d w1")
        show ?thesis
        proof (cases r)
          case (Inl t)
          with CreateDraft_text [of env client ?d w1 t w2] cd h have "t \<noteq> ?bad" by metis
          with assms n cfg Inr na cl cd Inl show ?thesis by (simp add: mailScheduleCmd_def)
        next
          case dr: (Inr draftID)
          show ?thesis
            using assms n cfg Inr na cl cd dr
            by (simp add: mailScheduleCmd_def split: prod.splits option.splits)
        qed
      qed
    qed
  qed
qed

theorem mailScheduleCmd_rejects_past_witness:
  "flag_to sample_flags \<noteq> [] \<and> flag_subject sample_flags \<noteq> [] \<and> flag_body sample_flags \<noteq> [] \<and>
   flag_at sample_flags \<noteq> [] \<and>
   parseDateTime sample_env (flag_at sample_flags) = Inr 0 \<and>
   time_Now (sample_world []) = (100, (sample_world [])\<lparr>tick := 1\<rparr>) \<and> (0::int) < 100 \<and>
   mailScheduleCmd sample_env sample_flags (sample_world []) =
     (Some ''schedule time must be in the future'', (sample_world [])\<lparr>tick := 1\<rparr>) \<and>
   parseDateTime sample_env (flag_at (sample_flags\<lparr>flag_at := ''1970-01-01T00:00:00.0000001Z''\<rparr>)) = Inr 100 \<and>
   fst (mailScheduleCmd sample_env (sample_flags\<lparr>flag_at := ''1970-01-01T00:00:00.0000001Z''\<rparr>) (sample_world []))
     \<noteq> Some ''schedule time must be in the future''"
proof -
  let ?w = "sample_world []"
  let ?fl = "sample_flags\<lparr>flag_at := ''1970-01-01T00:00:00.0000001Z''\<rparr>"
  have t: "time_Now ?w = (100, ?w\<lparr>tick := 1\<rparr>)"
    by (simp add: time_Now_def sample_world_def)
  have p0: "parseDateTime sample_env (flag_at sample_flags) = Inr 0"
    by (simp add: sample_flags_def parse_sample0)
  have p1: "parseDateTime sample_env (flag_at ?fl) = Inr 100"
    by (simp add: parse_sample100)
  have f: "flag_to sample_flags \<noteq> []" "flag_subject sample_flags \<noteq> []"
    "flag_body sample_flags \<noteq> []" "flag_at sample_flags \<noteq> []"
    by (simp_all add: sample_flags_def)
  have g: "flag_to ?fl \<noteq> []" "flag_subject ?fl \<noteq> []" "flag_body ?fl \<noteq> []" "flag_at ?fl \<noteq> []"
    by (simp_all add: sample_flags_def)
  show ?thesis
    using mailScheduleCmd_rejects_past [OF f p0 t] mailScheduleCmd_rejects_past [OF g p1 t] f p0 p1 t
    by simp
qed

text \<open>
  Claim C5 (error isolation) at a failing input. The store holds two due records with
  the same id, as two calls of \<^verbatim>\<open>AddScheduledEmail\<close> leave it when the clock gives both the
  same reading. The run attempts both and reports one sent and one failed, but the
  records do not each receive their own mark: \<^verbatim>\<open>MarkScheduledEmailError\<close> and
  \<^verbatim>\<open>MarkScheduledEmailSent\<close> are given the shared id and both update the first record,
  which ends up carrying the error and marked sent, while the record whose draft was sent
  is left as it was and is still pending.
\<close>

theorem dispatch_marks_wrong_record:
  "snd (AddScheduledEmail sample_due (snd (AddScheduledEmail sample_no_token stepped_back_world))) =
     stepped_back_world\<lparr>tick := 4, disk := Stored twin_store\<rparr> \<and>
   twin_store = [sample_no_token\<lparr>ID := ''100'', CreatedAt := 101\<rparr>,
                 sample_due\<lparr>ID := ''100'', CreatedAt := 101\<rparr>] \<and>
   mailScheduledSendCmd sample_env [] False (stepped_back_world\<lparr>tick := 4, disk := Stored twin_store\<rparr>) =
     (Inr (Summary 1 1),
      stepped_back_world\<lparr>tick := 6, outbox := [(''work'', ''d1'')],
        disk := Stored
          [sample_no_token\<lparr>ID := ''100'', CreatedAt := 101, Sent := True, SentAt := 101,
              Error := ''failed to get authenticated client: token expired''\<rparr>,
           sample_due\<lparr>ID := ''100'', CreatedAt := 101\<rparr>]\<rparr>) \<and>
   outcome sample_env sample_config (sample_no_token\<lparr>ID := ''100'', CreatedAt := 101\<rparr>) =
     Inl ''failed to get authenticated client: token expired'' \<and>
   outcome sample_env sample_config (sample_due\<lparr>ID := ''100'', CreatedAt := 101\<rparr>) = Inr ''m-d1'' \<and>
   due [] 100 (sample_due\<lparr>ID := ''100'', CreatedAt := 101\<rparr>)"
proof -
  have a: "snd (AddScheduledEmail sample_due (snd (AddScheduledEmail sample_no_token stepped_back_world))) =
     stepped_back_world\<lparr>tick := 4, disk := Stored twin_store\<rparr>"
    by (simp add: AddScheduledEmail_def generateID_def store_defs UnixNano_100 Sprintf_d_def
        decimal_100 stepped_back_world_def sample_world_def twin_store_def more_samples samples)
  have t: "twin_store = [sample_no_token\<lparr>ID := ''100'', CreatedAt := 101\<rparr>,
                 sample_due\<lparr>ID := ''100'', CreatedAt := 101\<rparr>]"
    by (simp add: twin_store_def)
  have r: "mailScheduledSendCmd sample_env [] False (stepped_back_world\<lparr>tick := 4, disk := Stored twin_store\<rparr>) =
     (Inr (Summary 1 1),
      stepped_back_world\<lparr>tick := 6, outbox := [(''work'', ''d1'')],
        disk := Stored
          [sample_no_token\<lparr>ID := ''100'', CreatedAt := 101, Sent := True, SentAt := 101,
              Error := ''failed to get authenticated client: token expired''\<rparr>,
           sample_due\<lparr>ID := ''100'', CreatedAt := 101\<rparr>]\<rparr>)"
    by (simp add: command_defs store_defs stepped_back_world_def sample_world_def sample_env_def
        sample_config_def sample_account_def twin_store_def more_samples samples)
  have o: "outcome sample_env sample_config (sample_no_token\<lparr>ID := ''100'', CreatedAt := 101\<rparr>) =
     Inl ''failed to get authenticated client: token expired''"
    "outcome sample_env sample_config (sample_due\<lparr>ID := ''100'', CreatedAt := 101\<rparr>) = Inr ''m-d1''"
    by (simp_all add: outcome_def GetAccount_def NewClient_def sample_env_def sample_config_def
        more_samples samples)
  have d: "due [] 100 (sample_due\<lparr>ID := ''100'', CreatedAt := 101\<rparr>)"
    by (simp add: due_def samples)
  from a t r o d show ?thesis by blast
qed

text \<open>
  Claim C1 (idempotent dispatch) at a failing input. The store holds one due record and
  its file cannot be written. The first run sends the draft and reports one email sent;
  \<^verbatim>\<open>MarkScheduledEmailSent\<close> fails and the loop drops its error, so the store is as it was.
  The second run, at the same clock reading and with nothing scheduled in between, finds
  the record again, sends the draft a second time and reports one email sent.
\<close>

theorem dispatch_twice_sends_twice:
  "LoadScheduledEmails read_only_world = Inr [sample_due] \<and>
   mailScheduledSendCmd sample_env [] False read_only_world =
     (Inr (Summary 1 0), read_only_world\<lparr>tick := 2, outbox := [(''work'', ''d1'')]\<rparr>) \<and>
   clock read_only_world 2 = clock read_only_world 0 \<and>
   LoadScheduledEmails (read_only_world\<lparr>tick := 2, outbox := [(''work'', ''d1'')]\<rparr>) = Inr [sample_due] \<and>
   mailScheduledSendCmd sample_env [] False (read_only_world\<lparr>tick := 2, outbox := [(''work'', ''d1'')]\<rparr>) =
     (Inr (Summary 1 0),
      read_only_world\<lparr>tick := 4, outbox := [(''work'', ''d1''), (''work'', ''d1'')]\<rparr>) \<and>
   MarkScheduledEmailSent ''1'' ''m-d1'' (read_only_world\<lparr>outbox := [(''work'', ''d1'')]\<rparr>) =
     (Some ''failed to write scheduled emails: permission denied'',
      read_only_world\<lparr>tick := 1, outbox := [(''work'', ''d1'')]\<rparr>)"
  by (simp add: command_defs store_defs read_only_world_def frozen_world_def sample_world_def
      sample_env_def sample_config_def sample_account_def samples)

text \<open>
  Claim C6 (merge ordering), as amended. Let the date range be parsed, the configuration
  loaded with at least one account, and the accounts selected. Then \<^verbatim>\<open>cal list\<close> prints
  the rows of the accounts that answered sorted by start time, ascending: a rearrangement
  of those rows, whatever the order of the accounts and the order in which their
  goroutines finish. \<^verbatim>\<open>mail read\<close> prints rows that are not sorted: the rows of the
  accounts that answered, one account after the other in the order in which the
  goroutines finish, each account's rows being the summaries of its readable messages in
  the order the mail service listed them.
\<close>

theorem fan_out_merge_order:
  assumes "date_range env fl w = (Inr (fromTime, toTime), w1)"
    and "Load env w = Inr cfg" and "HasAccounts cfg"
    and "selected_accounts env cfg fl = Inr accounts"
    and "events = answers (events_task env cfg fromTime toTime (ls_limit fl)) (finish_order env accounts)"
    and "emails = answers (emails_task env cfg (ls_query fl) (ls_limit fl)) (finish_order env accounts)"
  shows "calListCmd env fl w =
           (Inr (failures (events_task env cfg fromTime toTime (ls_limit fl)) (finish_order env accounts),
                 sortEventsByStart events), w1)
    \<and> sorted_wrt (\<lambda>a b. Start a \<le> Start b) (sortEventsByStart events)
    \<and> mset (sortEventsByStart events) = mset events
    \<and> mailReadCmd env fl w =
           (Inr (failures (emails_task env cfg (ls_query fl) (ls_limit fl)) (finish_order env accounts),
                 emails), w)
    \<and> (\<forall>name rows. emails_task env cfg (ls_query fl) (ls_limit fl) name = Inr rows \<longrightarrow>
          (\<exists>ids. Messages_List env name (if ls_query fl \<noteq> [] then Some (ls_query fl) else None)
                    (if ls_limit fl > 0 then Some (ls_limit fl) else None) = Inr ids
                 \<and> rows = readable_rows env name ids))"
proof (intro conjI allI impI)
  show "calListCmd env fl w =
           (Inr (failures (events_task env cfg fromTime toTime (ls_limit fl)) (finish_order env accounts),
                 sortEventsByStart events), w1)"
    unfolding assms(5) using assms(1-4) by (rule calListCmd_eq)
  show "sorted_wrt (\<lambda>a b. Start a \<le> Start b) (sortEventsByStart events)"
    using sortEventsByStart_sorted [of events] by simp
  show "mset (sortEventsByStart events) = mset events"
    using sortEventsByStart_sorted [of events] by simp
  show "mailReadCmd env fl w =
           (Inr (failures (emails_task env cfg (ls_query fl) (ls_limit fl)) (finish_order env accounts),
                 emails), w)"
    unfolding assms(6) using assms(2-4) by (rule mailReadCmd_eq)
  show "\<exists>ids. Messages_List env name (if ls_query fl \<noteq> [] then Some (ls_query fl) else None)
                    (if ls_limit fl > 0 then Some (ls_limit fl) else None) = Inr ids
                 \<and> rows = readable_rows env name ids"
    if "emails_task env cfg (ls_query fl) (ls_limit fl) name = Inr rows" for name rows
    using that by (rule emails_task_rows)
qed

theorem fan_out_merge_order_witness:
  "date_range listing_env all_flags (sample_world []) =
     (Inr (100, 604800000000100), (sample_world [])\<lparr>tick := 1\<rparr>) \<and>
   Load listing_env (sample_world []) = Inr listing_config \<and> HasAccounts listing_config \<and>
   selected_accounts listing_env listing_config all_flags = Inr [''old'', ''personal'', ''work''] \<and>
   finish_order listing_env [''old'', ''personal'', ''work''] = [''work'', ''personal'', ''old''] \<and>
   calListCmd listing_env all_flags (sample_world []) =
     (Inr ([''[old] failed to get authenticated client: token expired''],
           [listed_event ''work'' ''e10'' 10, listed_event ''personal'' ''e20'' 20,
            listed_event ''work'' ''e30'' 30]),
      (sample_world [])\<lparr>tick := 1\<rparr>) \<and>
   mailReadCmd listing_env all_flags (sample_world []) =
     (Inr ([''[old] failed to get authenticated client: token expired''],
           [listed_email ''work'' ''m2'' 200, listed_email ''work'' ''m1'' 100,
            listed_email ''personal'' ''m3'' 150]),
      sample_world []) \<and>
   emails_task listing_env listing_config [] 25 ''work'' =
     Inr [listed_email ''work'' ''m2'' 200, listed_email ''work'' ''m1'' 100] \<and>
   Messages_List listing_env ''work'' None (Some 25) = Inr [''m2'', ''gone'', ''m1''] \<and>
   readable_rows listing_env ''work'' [''m2'', ''gone'', ''m1''] =
     [listed_email ''work'' ''m2'' 200, listed_email ''work'' ''m1'' 100]"
proof -
  let ?w = "sample_world []"
  let ?names = "[''work'', ''personal'', ''old'']"
  let ?events = "[listed_event ''work'' ''e30'' 30, listed_event ''work'' ''e10'' 10,
                  listed_event ''personal'' ''e20'' 20]"
  let ?emails = "[listed_email ''work'' ''m2'' 200, listed_email ''work'' ''m1'' 100,
                  listed_email ''personal'' ''m3'' 150]"
  note d = sample_date_range
  note a = sample_accounts
  have q: "ls_query all_flags = []" "ls_limit all_flags = 25"
    by (simp_all add: all_flags_def)
  have ev: "?events = answers (events_task listing_env listing_config 100 604800000000100 (ls_limit all_flags))
      (finish_order listing_env [''old'', ''personal'', ''work''])"
    by (simp add: a(4) q answers_def sample_events_task)
  have em: "?emails = answers (emails_task listing_env listing_config (ls_query all_flags) (ls_limit all_flags))
      (finish_order listing_env [''old'', ''personal'', ''work''])"
    by (simp add: a(4) q answers_def sample_emails_task)
  have fe: "failures (events_task listing_env listing_config 100 604800000000100 (ls_limit all_flags))
      (finish_order listing_env [''old'', ''personal'', ''work'']) =
        [''[old] failed to get authenticated client: token expired'']"
    by (simp add: a(4) q failures_def sample_events_task)
  have fm: "failures (emails_task listing_env listing_config (ls_query all_flags) (ls_limit all_flags))
      (finish_order listing_env [''old'', ''personal'', ''work'']) =
        [''[old] failed to get authenticated client: token expired'']"
    by (simp add: a(4) q failures_def sample_emails_task)
  have ml: "Messages_List listing_env ''work'' None (Some 25) = Inr [''m2'', ''gone'', ''m1'']"
    by (simp add: listing_env_def)
  have t: "emails_task listing_env listing_config [] 25 ''work'' =
     Inr [listed_email ''work'' ''m2'' 200, listed_email ''work'' ''m1'' 100]"
    by (rule sample_emails_task(1))
  note th = fan_out_merge_order [OF d a(1) a(2) a(3) ev em]
  have c: "calListCmd listing_env all_flags ?w =
     (Inr ([''[old] failed to get authenticated client: token expired''],
           [listed_event ''work'' ''e10'' 10, listed_event ''personal'' ''e20'' 20,
            listed_event ''work'' ''e30'' 30]), ?w\<lparr>tick := 1\<rparr>)"
    using th fe by (simp add: sample_sorted_events)
  have m: "mailReadCmd listing_env all_flags ?w =
     (Inr ([''[old] failed to get authenticated client: token expired''], ?emails), ?w)"
    using th fm by simp
  have "\<exists>ids. Messages_List listing_env ''work'' None (Some 25) = Inr ids
      \<and> [listed_email ''work'' ''m2'' 200, listed_email ''work'' ''m1'' 100]
          = readable_rows listing_env ''work'' ids"
    using th t q by simp
  with ml have r: "readable_rows listing_env ''work'' [''m2'', ''gone'', ''m1''] =
     [listed_email ''work'' ''m2'' 200, listed_email ''work'' ''m1'' 100]"
    by auto
  from d a c m t ml r show ?thesis by blast
qed

text \<open>
  Claim C6 as stated fails for the mail listing: with two accounts answering, the work
  mailbox listing the newer message first, \<^verbatim>\<open>mail read\<close> prints the work account's rows
  in that order and then the personal account's row, which is not ascending by date.
\<close>

theorem mailReadCmd_unsorted_counterexample:
  "mailReadCmd listing_env all_flags (sample_world []) =
     (Inr ([''[old] failed to get authenticated client: token expired''],
           [listed_email ''work'' ''m2'' 200, listed_email ''work'' ''m1'' 100,
            listed_email ''personal'' ''m3'' 150]),
      sample_world []) \<and>
   map Date [listed_email ''work'' ''m2'' 200, listed_email ''work'' ''m1'' 100,
             listed_email ''personal'' ''m3'' 150] = [200, 100, 150] \<and>
   \<not> sorted_wrt (\<lambda>a b. Date a \<le> Date b)
       [listed_email ''work'' ''m2'' 200, listed_email ''work'' ''m1'' 100,
        listed_email ''personal'' ''m3'' 150]"
proof -
  have "mailReadCmd listing_env all_flags (sample_world []) =
     (Inr ([''[old] failed to get authenticated client: token expired''],
           [listed_email ''work'' ''m2'' 200, listed_email ''work'' ''m1'' 100,
            listed_email ''personal'' ''m3'' 150]),
      sample_world [])"
    using mailReadCmd_eq [OF sample_accounts(1,2,3)]
    by (simp add: sample_accounts(4) all_flags_def failures_def answers_def sample_emails_task)
  then show ?thesis
    by (simp add: listed_email_def sample_email_def)
qed

end
